theory Spec2Isabelle
  imports Main
begin

section \<open>Strings and the regular expressions of the source\<close>

text \<open>
  A JavaScript string is modelled as a \<^typ>\<open>string\<close>, one \<^typ>\<open>char\<close> per code unit;
  the model therefore covers texts whose code units are below 256. The character classes
  are those of the ECMAScript regular expressions restricted to that range: \<open>\w\<close> is
  \<open>[A-Za-z0-9_]\<close>, \<open>\s\<close> is tab, line feed, vertical tab, form feed, carriage return,
  space and the no-break space.
\<close>

definition isWordChar :: "char \<Rightarrow> bool" where
  "isWordChar c =
     (let n = (of_char c :: nat)
      in (48 \<le> n \<and> n \<le> 57) \<or> (65 \<le> n \<and> n \<le> 90) \<or> n = 95 \<or> (97 \<le> n \<and> n \<le> 122))"

definition isSpace :: "char \<Rightarrow> bool" where
  "isSpace c = ((of_char c :: nat) \<in> {9, 10, 11, 12, 13, 32, 160})"

text \<open>\<open>String.prototype.endsWith\<close> and a test for a literal at the head of a text.\<close>

definition endsWith :: "string \<Rightarrow> string \<Rightarrow> bool" where
  "endsWith s suf = (length suf \<le> length s \<and> drop (length s - length suf) s = suf)"

definition startsWith :: "string \<Rightarrow> string \<Rightarrow> bool" where
  "startsWith s p = (take (length p) s = p)"

text \<open>
  The assertion \<open>\b\<close> holds between two neighbouring positions when exactly one of them
  holds a word character; the start and the end of the text count as non-word.
\<close>

definition isWordOpt :: "char option \<Rightarrow> bool" where
  "isWordOpt c = (case c of None \<Rightarrow> False | Some x \<Rightarrow> isWordChar x)"

definition headOpt :: "string \<Rightarrow> char option" where
  "headOpt s = (case s of [] \<Rightarrow> None | c # _ \<Rightarrow> Some c)"

definition wordBoundary :: "char option \<Rightarrow> string \<Rightarrow> bool" where
  "wordBoundary prev rest = (isWordOpt prev \<noteq> isWordOpt (headOpt rest))"

text \<open>
  \<open>String.prototype.search\<close>: the index of the leftmost position where the expression
  matches, or \<open>-1\<close>. The expression is given by its test at one position, which sees the
  character before the position and the text from the position on.
\<close>

fun searchFrom :: "(char option \<Rightarrow> string \<Rightarrow> bool) \<Rightarrow> char option \<Rightarrow> string \<Rightarrow> int \<Rightarrow> int" where
  "searchFrom m prev [] i = (if m prev [] then i else - 1)"
| "searchFrom m prev (c # cs) i =
     (if m prev (c # cs) then i else searchFrom m (Some c) cs (i + 1))"

definition search :: "(char option \<Rightarrow> string \<Rightarrow> bool) \<Rightarrow> string \<Rightarrow> int" where
  "search m s = searchFrom m None s 0"

text \<open>
  \<open>/\bp5(\.min)?\.js$/\<close> at one position: a word boundary, then \<open>p5\<close>, the optional
  \<open>.min\<close>, \<open>.js\<close> and the end of the text.
\<close>

definition matchP5Script :: "char option \<Rightarrow> string \<Rightarrow> bool" where
  "matchP5Script prev rest =
     (wordBoundary prev rest \<and> (rest = ''p5.min.js'' \<or> rest = ''p5.js''))"

text \<open>
  \<open>/function\s+(setup|draw)\b/\<close> at one position: the literal \<open>function\<close>, one or more
  white-space characters (the greedy run can give nothing back, since neither name starts
  with white space), \<open>setup\<close> or \<open>draw\<close>, and a word boundary after the name.
\<close>

definition matchName :: "string \<Rightarrow> string \<Rightarrow> bool" where
  "matchName name r =
     (startsWith r name \<and> wordBoundary (Some (last name)) (drop (length name) r))"

definition matchFunctionSetupDraw :: "char option \<Rightarrow> string \<Rightarrow> bool" where
  "matchFunctionSetupDraw prev rest =
     (startsWith rest ''function'' \<and>
      (let r1 = drop 8 rest; r2 = dropWhile isSpace r1
       in r2 \<noteq> r1 \<and> (matchName ''setup'' r2 \<or> matchName ''draw'' r2)))"

section \<open>Errors and the file system\<close>

text \<open>
  Every exception of the source is a value: the \<open>TypeError\<close> of the runtime, the errors
  of the \<open>fs\<close> module (by their code) and the \<open>JavascriptSyntaxError\<close> class of the source
  with its three fields, in the order of its constructor: message, file name, code.
\<close>

datatype error =
    TypeError
  | SystemError string
  | JavascriptSyntaxError string string string

text \<open>
  What a path names: a directory with the names it lists, a file with its text, or a
  file that \<open>stat\<close> sees and that cannot be read (the string is the code of the error
  of the read, \<open>EACCES\<close> for one).
\<close>

datatype entry = Directory "string list" | File string | Unreadable string

type_synonym filesystem = "string \<rightharpoonup> entry"

definition statSync :: "filesystem \<Rightarrow> string \<Rightarrow> error + entry" where
  "statSync fs p = (case fs p of None \<Rightarrow> Inl (SystemError ''ENOENT'') | Some e \<Rightarrow> Inr e)"

fun isDirectory :: "entry \<Rightarrow> bool" where
  "isDirectory (Directory _) = True"
| "isDirectory (File _) = False"
| "isDirectory (Unreadable _) = False"

definition existsSync :: "filesystem \<Rightarrow> string \<Rightarrow> bool" where
  "existsSync fs p = (fs p \<noteq> None)"

definition readFileSync :: "filesystem \<Rightarrow> string \<Rightarrow> error + string" where
  "readFileSync fs p =
     (case fs p of
        None \<Rightarrow> Inl (SystemError ''ENOENT'')
      | Some (Directory _) \<Rightarrow> Inl (SystemError ''EISDIR'')
      | Some (Unreadable c) \<Rightarrow> Inl (SystemError c)
      | Some (File content) \<Rightarrow> Inr content)"

definition readdirSync :: "filesystem \<Rightarrow> string \<Rightarrow> error + string list" where
  "readdirSync fs p =
     (case fs p of
        None \<Rightarrow> Inl (SystemError ''ENOENT'')
      | Some (File _) \<Rightarrow> Inl (SystemError ''ENOTDIR'')
      | Some (Unreadable _) \<Rightarrow> Inl (SystemError ''ENOTDIR'')
      | Some (Directory names) \<Rightarrow> Inr names)"

text \<open>
  \<open>path.join\<close> of a directory and a plain file name, for a directory path that is in
  normal form and does not end with a separator (the normalisation that \<open>path.join\<close>
  applies to other paths is not modelled; the paths are only keys of the file system), and
  \<open>path.basename\<close>: trailing separators are dropped, then the part after the last
  separator is kept.
\<close>

definition path_join :: "string \<Rightarrow> string \<Rightarrow> string" where
  "path_join dir file = dir @ ''/'' @ file"

definition basename :: "string \<Rightarrow> string" where
  "basename p =
     rev (takeWhile (\<lambda>c. c \<noteq> CHR ''/'') (dropWhile (\<lambda>c. c = CHR ''/'') (rev p)))"

section \<open>Sketch-markup classification\<close>

text \<open>
  The markup parser (\<open>node-html-parser\<close>) is a library outside the repository. It enters
  the model as a parameter: the function that gives, for a markup text, the attribute
  lists of its \<open>script\<close> elements in document order
  (\<open>parse(content).querySelectorAll('script')\<close> with \<open>node.attributes\<close>).
\<close>

type_synonym attributes = "(string \<times> string) list"

type_synonym markup_parser = "string \<Rightarrow> attributes list"

definition src :: "attributes \<Rightarrow> string option" where
  "src attrs = map_of attrs ''src''"

text \<open>
  \<open>scriptSrcs.some(src => src.search(/\bp5(\.min)?\.js$/))\<close>: the elements are visited in
  order; the callback raises on an absent attribute value, its result counts as true
  when it is a number other than zero, and the first true result ends the visit.
\<close>

fun someSrc :: "string option list \<Rightarrow> error + bool" where
  "someSrc [] = Inr False"
| "someSrc (None # rest) = Inl TypeError"
| "someSrc (Some s # rest) =
     (if search matchP5Script s \<noteq> 0 then Inr True else someSrc rest)"

definition isSketchHtml :: "markup_parser \<Rightarrow> filesystem \<Rightarrow> string \<Rightarrow> error + bool" where
  "isSketchHtml querySelectorAll_script fs filePath =
     (case statSync fs filePath of
        Inl e \<Rightarrow> Inl e
      | Inr st \<Rightarrow>
          if isDirectory st then Inr False
          else if \<not> endsWith filePath ''.htm'' \<and> \<not> endsWith filePath ''.html'' then Inr False
          else (case readFileSync fs filePath of
                  Inl e \<Rightarrow> Inl e
                | Inr content \<Rightarrow> someSrc (map src (querySelectorAll_script content))))"

section \<open>Syntax trees\<close>

text \<open>
  The trees are those of the ESTree format that the script parser (\<open>esprima\<close>) returns.
  A node kind that no analysed function has a case for is \<open>OtherStatement\<close>,
  \<open>OtherExpression\<close> or \<open>MemberPattern\<close>, and a field that no analysed function reads
  is left out (the operator of a binary expression, the \<open>init\<close> of a \<open>for\<close>, the left side
  of a \<open>for-in\<close>, the \<open>computed\<close> flag of a member access, the key of a property).
  An array pattern lists its elements with \<open>None\<close> for a hole, as the parser does
  with \<open>null\<close>.
\<close>

datatype pattern =
    PatternIdentifier string
  | ObjectPattern "property list"
  | ArrayPattern "pattern option list"
  | RestElement pattern
  | AssignmentPattern pattern
  | MemberPattern
and property =
    Property pattern
  | PropertyRestElement pattern

datatype expression =
    AssignmentExpression expression expression
  | BinaryExpression expression expression
  | CallExpression callee "argument list"
  | MemberExpression callee expression
  | Identifier string
  | Literal string
  | OtherExpression
and callee =
    Super
  | Callee expression
and argument =
    SpreadElement expression
  | Argument expression

datatype declarator = VariableDeclarator pattern "expression option"

datatype statement =
    FunctionDeclaration "string option" "pattern list" "statement list"
  | BlockStatement "statement list"
  | DoWhileStatement statement expression
  | ExpressionStatement expression
  | ForStatement "expression option" "expression option" statement
  | ForInStatement expression statement
  | IfStatement expression statement "statement option"
  | LabeledStatement statement
  | ReturnStatement "expression option"
  | VariableDeclaration "declarator list"
  | WhileStatement expression statement
  | DebuggerStatement
  | EmptyStatement
  | BreakStatement
  | ContinueStatement
  | OtherStatement

type_synonym program = "statement list"

section \<open>Parsing\<close>

text \<open>
  \<open>parseScript\<close> of the script parser is a parameter: for a source text it returns the
  tree (\<open>Inr\<close>) or throws an error, of which the source reads the message (\<open>Inl\<close>).
\<close>

type_synonym script_parser = "string \<Rightarrow> string + program"

definition checkedParseScript :: "script_parser \<Rightarrow> filesystem \<Rightarrow> string \<Rightarrow> error + program" where
  "checkedParseScript parseScript fs filePath =
     (case readFileSync fs filePath of
        Inl e \<Rightarrow> Inl e
      | Inr code \<Rightarrow>
          (case parseScript code of
             Inr tree \<Rightarrow> Inr tree
           | Inl msg \<Rightarrow> Inl (JavascriptSyntaxError msg filePath code)))"

definition parseOrReadJs :: "script_parser \<Rightarrow> filesystem \<Rightarrow> string \<Rightarrow> error + program" where
  "parseOrReadJs parseScript fs filePath =
     (case readFileSync fs filePath of
        Inl e \<Rightarrow> Inl e
      | Inr code \<Rightarrow>
          (case parseScript code of
             Inr tree \<Rightarrow> Inr tree
           | Inl msg \<Rightarrow> Inl (JavascriptSyntaxError msg filePath code)))"

section \<open>Sketch-script classification\<close>

fun isFunctionDeclaration :: "statement \<Rightarrow> bool" where
  "isFunctionDeclaration (FunctionDeclaration _ _ _) = True"
| "isFunctionDeclaration _ = False"

text \<open>\<open>node?.id?.name\<close> of a function declaration: \<open>None\<close> is \<open>undefined\<close>.\<close>

fun functionName :: "statement \<Rightarrow> string option" where
  "functionName (FunctionDeclaration fid _ _) = fid"
| "functionName _ = None"

definition isSketchJs :: "script_parser \<Rightarrow> filesystem \<Rightarrow> string \<Rightarrow> error + bool" where
  "isSketchJs parseScript fs filePath =
     (case statSync fs filePath of
        Inl e \<Rightarrow> Inl e
      | Inr st \<Rightarrow>
          if isDirectory st then Inr False
          else if \<not> endsWith filePath ''.js'' then Inr False
          else (case parseOrReadJs parseScript fs filePath of
                  Inr program \<Rightarrow>
                    (let functionDeclarations = filter isFunctionDeclaration program;
                         globalFunctionNames = set (map functionName functionDeclarations)
                     in Inr (Some ''setup'' \<in> globalFunctionNames \<or>
                             Some ''draw'' \<in> globalFunctionNames))
                | Inl (JavascriptSyntaxError msg file code) \<Rightarrow>
                    Inr (search matchFunctionSetupDraw code \<ge> 0)
                | Inl e \<Rightarrow> Inl e))"

section \<open>Projects\<close>

record Project =
  dirPath :: string
  indexPath :: "string option"
  sketchPath :: string
  title :: "string option"

text \<open>
  The constructor. An argument that the call leaves out is \<open>None\<close> and takes the default
  of the parameter list; \<open>null\<close>, the inner \<open>None\<close> of \<open>indexPath\<close> and of the title, is
  an argument like any other.
\<close>

definition newProject ::
  "string \<Rightarrow> string option option \<Rightarrow> string option \<Rightarrow> string option option \<Rightarrow> Project" where
  "newProject dir indexArg sketchArg titleArg =
     \<lparr> dirPath = dir,
       indexPath = (case indexArg of None \<Rightarrow> Some ''index.html'' | Some i \<Rightarrow> i),
       sketchPath = (case sketchArg of None \<Rightarrow> ''sketch.js'' | Some s \<Rightarrow> s),
       title = (case titleArg of None \<Rightarrow> None | Some t \<Rightarrow> t) \<rparr>"

text \<open>Truthiness of a string that may be \<open>null\<close>: present and not empty.\<close>

definition truthy :: "string option \<Rightarrow> bool" where
  "truthy v = (case v of None \<Rightarrow> False | Some s \<Rightarrow> s \<noteq> [])"

definition rootFile :: "Project \<Rightarrow> string" where
  "rootFile p =
     (if truthy (indexPath p) then the (indexPath p)
      else if sketchPath p \<noteq> [] then sketchPath p
      else basename (dirPath p))"

definition files :: "Project \<Rightarrow> string list" where
  "files p =
     (if truthy (indexPath p) then [basename (the (indexPath p))] else []) @
     (if sketchPath p \<noteq> [] then [basename (sketchPath p)] else [])"

text \<open>
  \<open>htmlContent.match(/.*<title>(.+)<\/title>/s)\<close> and its first group. With the \<open>s\<close>
  flag the dot matches every character, so the match starts at index 0 whenever there is
  one, and the group is the one of the first path the backtracking matcher completes:
  \<open>.*\<close> tries its longest extent first, then \<open>(.+)\<close> tries its longest extent first.
  \<open>captureTitle r k\<close> tries the extents \<open>k, k - 1, \<dots>, 1\<close> of the group on the text \<open>r\<close>
  after an opening tag; \<open>matchTitleFrom s k\<close> tries the extents \<open>k, k - 1, \<dots>, 0\<close> of
  \<open>.*\<close>.
\<close>

fun captureTitle :: "string \<Rightarrow> nat \<Rightarrow> string option" where
  "captureTitle r 0 = None"
| "captureTitle r (Suc k) =
     (if startsWith (drop (Suc k) r) ''</title>'' then Some (take (Suc k) r)
      else captureTitle r k)"

definition tryTitleAt :: "string \<Rightarrow> nat \<Rightarrow> string option" where
  "tryTitleAt s k =
     (let r = drop k s
      in if startsWith r ''<title>'' then captureTitle (drop 7 r) (length r - 7) else None)"

fun matchTitleFrom :: "string \<Rightarrow> nat \<Rightarrow> string option" where
  "matchTitleFrom s 0 = tryTitleAt s 0"
| "matchTitleFrom s (Suc k) =
     (case tryTitleAt s (Suc k) of
        Some c \<Rightarrow> Some c
      | None \<Rightarrow> matchTitleFrom s k)"

definition matchTitle :: "string \<Rightarrow> string option" where
  "matchTitle s = matchTitleFrom s (length s)"

definition trim :: "string \<Rightarrow> string" where
  "trim s = rev (dropWhile isSpace (rev (dropWhile isSpace s)))"

text \<open>
  \<open>rootFile.replace(/\.(html?|js)$/, '')\<close>: the expression can only match up to the end
  of the text, so the replacement keeps what is before the match.
\<close>

definition matchExtension :: "char option \<Rightarrow> string \<Rightarrow> bool" where
  "matchExtension prev rest = (rest = ''.html'' \<or> rest = ''.htm'' \<or> rest = ''.js'')"

definition removeExtension :: "string \<Rightarrow> string" where
  "removeExtension s =
     (let i = search matchExtension s in if i < 0 then s else take (nat i) s)"

definition name :: "filesystem \<Rightarrow> Project \<Rightarrow> error + string" where
  "name fs p =
     (if truthy (title p) then Inr (the (title p))
      else if truthy (indexPath p) \<and> existsSync fs (path_join (dirPath p) (the (indexPath p)))
      then (case readFileSync fs (path_join (dirPath p) (the (indexPath p))) of
              Inl e \<Rightarrow> Inl e
            | Inr htmlContent \<Rightarrow>
                (case matchTitle htmlContent of
                   Some m1 \<Rightarrow> Inr (trim m1)
                 | None \<Rightarrow> Inr (removeExtension (rootFile p))))
      else Inr (removeExtension (rootFile p)))"

section \<open>The directory scan\<close>

text \<open>
  \<open>glob.sync('*.@(html|html)', { cwd: dir })\<close>. The pattern is tested on each name of the
  directory: the star matches any run of characters other than the separator, a name that
  starts with a dot is not matched (the \<open>dot\<close> option is off), and the group offers the
  alternative \<open>html\<close> twice. Letter case counts (the \<open>nocase\<close> option is off). A directory
  that cannot be listed gives no name. The result is given in the order of the listing;
  the library's own ordering of its result is not modelled.
\<close>

definition globMatch :: "string \<Rightarrow> bool" where
  "globMatch n =
     (n \<noteq> [] \<and> hd n \<noteq> CHR ''.'' \<and> CHR ''/'' \<notin> set n \<and>
      (endsWith n ''.html'' \<or> endsWith n ''.html''))"

definition glob_sync :: "filesystem \<Rightarrow> string \<Rightarrow> string list" where
  "glob_sync fs dir =
     (case fs dir of Some (Directory names) \<Rightarrow> filter globMatch names | _ \<Rightarrow> [])"

text \<open>The first loop of \<open>findProjects\<close>: the projects it pushes, in order.\<close>

fun htmlProjects :: "markup_parser \<Rightarrow> filesystem \<Rightarrow> string \<Rightarrow> string list \<Rightarrow> error + Project list" where
  "htmlProjects q fs dir [] = Inr []"
| "htmlProjects q fs dir (file # rest) =
     (case isSketchHtml q fs (path_join dir file) of
        Inl e \<Rightarrow> Inl e
      | Inr b \<Rightarrow>
          (case htmlProjects q fs dir rest of
             Inl e \<Rightarrow> Inl e
           | Inr ps \<Rightarrow>
               Inr ((if b then [newProject dir (Some (Some file)) None None] else []) @ ps)))"

definition removeProjectFiles :: "string list \<Rightarrow> Project list \<Rightarrow> string list" where
  "removeProjectFiles fileNames projects =
     filter (\<lambda>f. \<not> list_ex (\<lambda>p. f \<in> set (files p)) projects) fileNames"

text \<open>The second loop: it runs over the list computed before its first step.\<close>

fun jsProjects :: "script_parser \<Rightarrow> filesystem \<Rightarrow> string \<Rightarrow> string list \<Rightarrow> error + Project list" where
  "jsProjects parseScript fs dir [] = Inr []"
| "jsProjects parseScript fs dir (file # rest) =
     (case isSketchJs parseScript fs (path_join dir file) of
        Inl e \<Rightarrow> Inl e
      | Inr b \<Rightarrow>
          (case jsProjects parseScript fs dir rest of
             Inl e \<Rightarrow> Inl e
           | Inr ps \<Rightarrow>
               Inr ((if b then [newProject dir (Some None) (Some file) None] else []) @ ps)))"

text \<open>The result \<open>{ files, projects }\<close> is the pair of the two.\<close>

definition findProjects ::
  "markup_parser \<Rightarrow> script_parser \<Rightarrow> filesystem \<Rightarrow> string \<Rightarrow> error + (string list \<times> Project list)" where
  "findProjects q parseScript fs dir =
     (case htmlProjects q fs dir (glob_sync fs dir) of
        Inl e \<Rightarrow> Inl e
      | Inr projects1 \<Rightarrow>
          (case readdirSync fs dir of
             Inl e \<Rightarrow> Inl e
           | Inr fileNames \<Rightarrow>
               (case jsProjects parseScript fs dir (removeProjectFiles fileNames projects1) of
                  Inl e \<Rightarrow> Inl e
                | Inr projects2 \<Rightarrow>
                    Inr (removeProjectFiles fileNames (projects1 @ projects2),
                         projects1 @ projects2))))"

section \<open>Free variables\<close>

text \<open>
  A generator is modelled by the list of the names it yields, or by the error it raises:
  every consumer in the source runs a generator to its end, and an error leaves
  \<open>findFreeVariables\<close> with no result. \<open>andThen\<close> runs one generator after another. The
  warning that the default cases log is not modelled.
\<close>

definition andThen :: "error + string list \<Rightarrow> error + string list \<Rightarrow> error + string list" where
  "andThen a b =
     (case a of
        Inl e \<Rightarrow> Inl e
      | Inr xs \<Rightarrow> (case b of Inl e \<Rightarrow> Inl e | Inr ys \<Rightarrow> Inr (xs @ ys)))"

text \<open>
  \<open>iterPatternNames\<close>, with its loops over the properties of an object pattern and over
  the elements of an array pattern. Reading the \<open>type\<close> of a hole raises.
\<close>

fun iterPatternNames :: "pattern \<Rightarrow> error + string list"
  and iterPatternNames_properties :: "property list \<Rightarrow> error + string list"
  and iterPatternNames_elements :: "pattern option list \<Rightarrow> error + string list" where
  "iterPatternNames (PatternIdentifier n) = Inr [n]"
| "iterPatternNames (ObjectPattern props) = iterPatternNames_properties props"
| "iterPatternNames (ArrayPattern elems) = iterPatternNames_elements elems"
| "iterPatternNames (RestElement a) = iterPatternNames a"
| "iterPatternNames (AssignmentPattern l) = iterPatternNames l"
| "iterPatternNames MemberPattern = Inr []"
| "iterPatternNames_properties [] = Inr []"
| "iterPatternNames_properties (Property v # props) =
     andThen (iterPatternNames v) (iterPatternNames_properties props)"
| "iterPatternNames_properties (PropertyRestElement a # props) =
     andThen (iterPatternNames a) (iterPatternNames_properties props)"
| "iterPatternNames_elements [] = Inr []"
| "iterPatternNames_elements (None # elems) = Inl TypeError"
| "iterPatternNames_elements (Some p # elems) =
     andThen (iterPatternNames p) (iterPatternNames_elements elems)"

text \<open>
  \<open>iterDeclaredNames\<close>: a function declaration yields its name; a variable declaration
  enters the loop over its declarators, whose body ends with \<open>break\<close>, so that the loop
  stops after the first declarator; any other statement yields nothing.
\<close>

fun iterDeclaredNames :: "statement \<Rightarrow> error + string list" where
  "iterDeclaredNames (FunctionDeclaration fid params body) =
     Inr (case fid of None \<Rightarrow> [] | Some n \<Rightarrow> [n])"
| "iterDeclaredNames (VariableDeclaration []) = Inr []"
| "iterDeclaredNames (VariableDeclaration (VariableDeclarator p i # decls)) =
     iterPatternNames p"
| "iterDeclaredNames s = Inr []"

fun paramNames :: "pattern list \<Rightarrow> error + string list" where
  "paramNames [] = Inr []"
| "paramNames (param # params) = andThen (iterPatternNames param) (paramNames params)"

fun declaredNames :: "statement list \<Rightarrow> error + string list" where
  "declaredNames [] = Inr []"
| "declaredNames (block # blocks) = andThen (iterDeclaredNames block) (declaredNames blocks)"

text \<open>
  The set \<open>locals\<close> that the \<open>FunctionDeclaration\<close> case of \<open>iterStatement\<close> builds before
  it walks the body: the name of the function, the names of its parameters, the names
  that \<open>iterDeclaredNames\<close> yields for the statements of the body.
\<close>

definition locals :: "string option \<Rightarrow> pattern list \<Rightarrow> statement list \<Rightarrow> error + string list" where
  "locals fid params body =
     andThen (Inr (case fid of None \<Rightarrow> [] | Some n \<Rightarrow> [n]))
       (andThen (paramNames params) (declaredNames body))"

fun iterExpression :: "expression \<Rightarrow> string list"
  and iterExpression_callee :: "callee \<Rightarrow> string list"
  and iterExpression_arguments :: "argument list \<Rightarrow> string list" where
  "iterExpression (AssignmentExpression l r) = iterExpression r"
| "iterExpression (BinaryExpression l r) = iterExpression l @ iterExpression r"
| "iterExpression (CallExpression c args) =
     iterExpression_callee c @ iterExpression_arguments args"
| "iterExpression (MemberExpression obj prop) = iterExpression_callee obj"
| "iterExpression (Identifier n) = [n]"
| "iterExpression (Literal v) = []"
| "iterExpression OtherExpression = []"
| "iterExpression_callee Super = []"
| "iterExpression_callee (Callee e) = iterExpression e"
| "iterExpression_arguments [] = []"
| "iterExpression_arguments (SpreadElement e # args) = iterExpression_arguments args"
| "iterExpression_arguments (Argument e # args) =
     iterExpression e @ iterExpression_arguments args"

definition iterExpression_option :: "expression option \<Rightarrow> string list" where
  "iterExpression_option e = (case e of None \<Rightarrow> [] | Some x \<Rightarrow> iterExpression x)"

fun iterInitializers :: "declarator list \<Rightarrow> string list" where
  "iterInitializers [] = []"
| "iterInitializers (VariableDeclarator p i # decls) =
     iterExpression_option i @ iterInitializers decls"

fun iterStatement :: "statement \<Rightarrow> error + string list"
  and iterStatement_body :: "statement list \<Rightarrow> error + string list" where
  "iterStatement (FunctionDeclaration fid params body) =
     (case locals fid params body of
        Inl e \<Rightarrow> Inl e
      | Inr ls \<Rightarrow>
          (case iterStatement_body body of
             Inl e \<Rightarrow> Inl e
           | Inr names \<Rightarrow> Inr (filter (\<lambda>n. n \<notin> set ls) names)))"
| "iterStatement (BlockStatement body) = iterStatement_body body"
| "iterStatement (DoWhileStatement body test) =
     andThen (iterStatement body) (Inr (iterExpression test))"
| "iterStatement (ExpressionStatement e) = Inr (iterExpression e)"
| "iterStatement (ForStatement test update body) =
     andThen (Inr (iterExpression_option test @ iterExpression_option update))
       (iterStatement body)"
| "iterStatement (ForInStatement right body) =
     andThen (Inr (iterExpression right)) (iterStatement body)"
| "iterStatement (IfStatement test consequent alternate) =
     andThen (Inr (iterExpression test))
       (andThen (iterStatement consequent)
          (case alternate of None \<Rightarrow> Inr [] | Some a \<Rightarrow> iterStatement a))"
| "iterStatement (LabeledStatement body) = iterStatement body"
| "iterStatement (ReturnStatement argument) = Inr (iterExpression_option argument)"
| "iterStatement (VariableDeclaration decls) = Inr (iterInitializers decls)"
| "iterStatement (WhileStatement test body) =
     andThen (Inr (iterExpression test)) (iterStatement body)"
| "iterStatement DebuggerStatement = Inr []"
| "iterStatement EmptyStatement = Inr []"
| "iterStatement BreakStatement = Inr []"
| "iterStatement ContinueStatement = Inr []"
| "iterStatement OtherStatement = Inr []"
| "iterStatement_body [] = Inr []"
| "iterStatement_body (child # children) =
     andThen (iterStatement child) (iterStatement_body children)"

text \<open>
  \<open>findFreeVariables\<close>: the names that the top-level function declarations yield, in
  order, without the names of the top-level functions; the result is their set.
\<close>

fun freeNames :: "statement list \<Rightarrow> error + string list" where
  "freeNames [] = Inr []"
| "freeNames (node # nodes) = andThen (iterStatement node) (freeNames nodes)"

definition findFreeVariables :: "program \<Rightarrow> error + string set" where
  "findFreeVariables program =
     (let functionDeclarations = filter isFunctionDeclaration program;
          globalVariables = set (map functionName functionDeclarations)
      in case freeNames functionDeclarations of
           Inl e \<Rightarrow> Inl e
         | Inr names \<Rightarrow> Inr (set (filter (\<lambda>n. Some n \<notin> globalVariables) names)))"

section \<open>Member references\<close>

text \<open>
  The generators of \<open>findP5MemberReferences\<close>; they share their names with those of
  \<open>findFreeVariables\<close> in the source and carry the prefix \<open>p5\<close> here. None of them raises.
\<close>

fun p5IterExpression :: "expression \<Rightarrow> string list"
  and p5IterExpression_callee :: "callee \<Rightarrow> string list"
  and p5IterExpression_arguments :: "argument list \<Rightarrow> string list" where
  "p5IterExpression (AssignmentExpression l r) = p5IterExpression r"
| "p5IterExpression (BinaryExpression l r) = p5IterExpression l @ p5IterExpression r"
| "p5IterExpression (CallExpression c args) =
     p5IterExpression_callee c @ p5IterExpression_arguments args"
| "p5IterExpression (MemberExpression obj prop) =
     (case obj of
        Callee (Identifier n) \<Rightarrow>
          (if n = ''p5'' then (case prop of Identifier m \<Rightarrow> [m] | _ \<Rightarrow> []) else [])
      | _ \<Rightarrow> [])"
| "p5IterExpression (Identifier n) = []"
| "p5IterExpression (Literal v) = []"
| "p5IterExpression OtherExpression = []"
| "p5IterExpression_callee Super = []"
| "p5IterExpression_callee (Callee e) = p5IterExpression e"
| "p5IterExpression_arguments [] = []"
| "p5IterExpression_arguments (SpreadElement e # args) = p5IterExpression_arguments args"
| "p5IterExpression_arguments (Argument e # args) =
     p5IterExpression e @ p5IterExpression_arguments args"

fun p5IterInitializers :: "declarator list \<Rightarrow> string list" where
  "p5IterInitializers [] = []"
| "p5IterInitializers (VariableDeclarator p i # decls) =
     (case i of None \<Rightarrow> [] | Some e \<Rightarrow> p5IterExpression e) @ p5IterInitializers decls"

fun p5IterStatement :: "statement \<Rightarrow> string list"
  and p5IterStatement_body :: "statement list \<Rightarrow> string list" where
  "p5IterStatement (FunctionDeclaration fid params body) = p5IterStatement_body body"
| "p5IterStatement (VariableDeclaration decls) = p5IterInitializers decls"
| "p5IterStatement (ExpressionStatement e) = p5IterExpression e"
| "p5IterStatement (ReturnStatement argument) =
     (case argument of None \<Rightarrow> [] | Some e \<Rightarrow> p5IterExpression e)"
| "p5IterStatement s = []"
| "p5IterStatement_body [] = []"
| "p5IterStatement_body (child # children) =
     p5IterStatement child @ p5IterStatement_body children"

definition iterProgram :: "program \<Rightarrow> string list" where
  "iterProgram program = p5IterStatement_body program"

definition findP5MemberReferences :: "program \<Rightarrow> string set" where
  "findP5MemberReferences program = set (iterProgram program)"

section \<open>The properties as the specification words them\<close>

text \<open>
  The definitions of this section follow the words of the specification, not the source;
  the theorems compare them with the definitions above.
\<close>

text \<open>An occurrence of the literal \<open>t\<close> in the text \<open>s\<close> at index \<open>k\<close>.\<close>

definition occursAt :: "string \<Rightarrow> string \<Rightarrow> nat \<Rightarrow> bool" where
  "occursAt t s k = startsWith (drop k s) t"

text \<open>
  ``The keyword introducing a function, whitespace, then \<open>setup\<close> or \<open>draw\<close> as a whole
  word'', found somewhere in the text.
\<close>

definition spec_functionSetupDraw :: "string \<Rightarrow> bool" where
  "spec_functionSetupDraw s =
     (\<exists>before ws nm after.
        s = before @ ''function'' @ ws @ nm @ after \<and>
        ws \<noteq> [] \<and> list_all isSpace ws \<and>
        (nm = ''setup'' \<or> nm = ''draw'') \<and>
        \<not> isWordOpt (headOpt after))"

text \<open>
  ``A path ending in the runtime library's script filename (with an optional minified
  suffix)'', the file name starting at a word boundary.
\<close>

definition spec_p5ScriptSrc :: "string \<Rightarrow> bool" where
  "spec_p5ScriptSrc s =
     (\<exists>before nm.
        s = before @ nm \<and> (nm = ''p5.js'' \<or> nm = ''p5.min.js'') \<and>
        \<not> isWordOpt (if before = [] then None else Some (last before)))"

text \<open>
  ``The first \<open><title>\<dots></title>\<close> value'': the text between the first opening tag and
  the first closing tag after it. \<open>splitFirst t s\<close> cuts \<open>s\<close> at the first occurrence
  of \<open>t\<close>.
\<close>

fun splitFirst :: "string \<Rightarrow> string \<Rightarrow> (string \<times> string) option" where
  "splitFirst t [] = (if t = [] then Some ([], []) else None)"
| "splitFirst t (c # cs) =
     (if startsWith (c # cs) t then Some ([], drop (length t) (c # cs))
      else map_option (\<lambda>(a, b). (c # a, b)) (splitFirst t cs))"

definition spec_firstTitle :: "string \<Rightarrow> string option" where
  "spec_firstTitle s =
     (case splitFirst ''<title>'' s of
        None \<Rightarrow> None
      | Some (a, r) \<Rightarrow> map_option fst (splitFirst ''</title>'' r))"

text \<open>
  The group of \<open>matchTitle\<close> in words: the text \<open>c\<close>, not empty, between an opening tag
  at \<open>i\<close> and a closing tag at \<open>j\<close>, where \<open>j\<close> is the last closing tag of the text and
  \<open>i\<close> is the last opening tag with a character between it and that closing tag.
\<close>

definition lastTitle :: "string \<Rightarrow> string \<Rightarrow> bool" where
  "lastTitle s c =
     (\<exists>i j. occursAt ''<title>'' s i \<and> occursAt ''</title>'' s j \<and> i + 7 < j \<and>
        c = take (j - (i + 7)) (drop (i + 7) s) \<and>
        (\<forall>j'. j < j' \<longrightarrow> \<not> occursAt ''</title>'' s j') \<and>
        (\<forall>i'. i < i' \<and> occursAt ''<title>'' s i' \<longrightarrow> j \<le> i' + 7))"

text \<open>
  ``Case-insensitive \<open>.htm\<close>/\<open>.html\<close>'': the extension of the name in lower case.
\<close>

definition lowerCase :: "char \<Rightarrow> char" where
  "lowerCase c =
     (case map_of (zip ''ABCDEFGHIJKLMNOPQRSTUVWXYZ'' ''abcdefghijklmnopqrstuvwxyz'') c of
        None \<Rightarrow> c
      | Some l \<Rightarrow> l)"

definition spec_markupCandidate :: "string \<Rightarrow> bool" where
  "spec_markupCandidate n =
     (endsWith (map lowerCase n) ''.htm'' \<or> endsWith (map lowerCase n) ''.html'')"

text \<open>
  ``Destructuring patterns recursively contribute all bound leaf names: object-pattern
  property values, array-pattern elements, rest elements, default-assignment left-hand
  sides.''
\<close>

fun boundNames :: "pattern \<Rightarrow> string set"
  and boundNames_properties :: "property list \<Rightarrow> string set"
  and boundNames_elements :: "pattern option list \<Rightarrow> string set" where
  "boundNames (PatternIdentifier n) = {n}"
| "boundNames (ObjectPattern props) = boundNames_properties props"
| "boundNames (ArrayPattern elems) = boundNames_elements elems"
| "boundNames (RestElement a) = boundNames a"
| "boundNames (AssignmentPattern l) = boundNames l"
| "boundNames MemberPattern = {}"
| "boundNames_properties [] = {}"
| "boundNames_properties (Property v # props) = boundNames v \<union> boundNames_properties props"
| "boundNames_properties (PropertyRestElement a # props) =
     boundNames a \<union> boundNames_properties props"
| "boundNames_elements [] = {}"
| "boundNames_elements (None # elems) = boundNames_elements elems"
| "boundNames_elements (Some p # elems) = boundNames p \<union> boundNames_elements elems"

text \<open>
  ``Every name introduced by any function or variable declaration anywhere in the body'',
  every declarator counted, ``independent of textual order or nesting inside
  blocks/loops/conditionals''. The body of a nested function is a scope of its own and is
  not entered.
\<close>

fun declaratorNames :: "declarator list \<Rightarrow> string set" where
  "declaratorNames [] = {}"
| "declaratorNames (VariableDeclarator p i # decls) = boundNames p \<union> declaratorNames decls"

fun spec_declaredNames :: "statement \<Rightarrow> string set"
  and spec_declaredNames_body :: "statement list \<Rightarrow> string set" where
  "spec_declaredNames (FunctionDeclaration fid params body) =
     (case fid of None \<Rightarrow> {} | Some n \<Rightarrow> {n})"
| "spec_declaredNames (VariableDeclaration decls) = declaratorNames decls"
| "spec_declaredNames (BlockStatement body) = spec_declaredNames_body body"
| "spec_declaredNames (DoWhileStatement body test) = spec_declaredNames body"
| "spec_declaredNames (ForStatement test update body) = spec_declaredNames body"
| "spec_declaredNames (ForInStatement right body) = spec_declaredNames body"
| "spec_declaredNames (IfStatement test consequent alternate) =
     spec_declaredNames consequent \<union>
     (case alternate of None \<Rightarrow> {} | Some a \<Rightarrow> spec_declaredNames a)"
| "spec_declaredNames (LabeledStatement body) = spec_declaredNames body"
| "spec_declaredNames (WhileStatement test body) = spec_declaredNames body"
| "spec_declaredNames s = {}"
| "spec_declaredNames_body [] = {}"
| "spec_declaredNames_body (s # ss) = spec_declaredNames s \<union> spec_declaredNames_body ss"

text \<open>
  The names that a statement standing directly in a function body declares for that
  body: the name of a function declaration, the names bound by the first declarator of a
  variable declaration.
\<close>

fun directNames :: "statement \<Rightarrow> string set" where
  "directNames (FunctionDeclaration fid params body) =
     (case fid of None \<Rightarrow> {} | Some n \<Rightarrow> {n})"
| "directNames (VariableDeclaration (VariableDeclarator p i # decls)) = boundNames p"
| "directNames s = {}"

text \<open>
  The names that the declarations standing directly in a function body introduce, every
  declarator counted: the name of a function declaration, the names bound by the
  declarators of a variable declaration. A statement of any other kind, whatever it holds,
  gives none.
\<close>

fun directDeclarationNames :: "statement \<Rightarrow> string set" where
  "directDeclarationNames (FunctionDeclaration fid params body) =
     (case fid of None \<Rightarrow> {} | Some n \<Rightarrow> {n})"
| "directDeclarationNames (VariableDeclaration decls) = declaratorNames decls"
| "directDeclarationNames s = {}"

section \<open>Example inputs\<close>

text \<open>
  Markup texts with what the markup parser gives for them, script texts with what the
  script parser gives for them.
\<close>

definition markupP5Min :: string where
  \<open>markupP5Min = ''<script src="lib/p5.min.js"></script>''\<close>

definition markupJquery :: string where
  \<open>markupJquery = ''<script src="jquery.js"></script>''\<close>

definition markupP5 :: string where
  \<open>markupP5 = ''<script src="p5.js"></script>''\<close>

definition markupP5Inline :: string where
  \<open>markupP5Inline = ''<script src="lib/p5.js"></script><script>setup();</script>''\<close>

definition markupInline :: string where
  \<open>markupInline = ''<script>setup();</script>''\<close>

definition exampleMarkupParser :: markup_parser where
  "exampleMarkupParser content =
     (if content = markupP5Min then [[(''src'', ''lib/p5.min.js'')]]
      else if content = markupJquery then [[(''src'', ''jquery.js'')]]
      else if content = markupP5 then [[(''src'', ''p5.js'')]]
      else if content = markupP5Inline then [[(''src'', ''lib/p5.js'')], []]
      else if content = markupInline then [[]]
      else [])"

definition scriptSetup :: string where
  "scriptSetup = ''function setup(){}''"

definition scriptBroken :: string where
  "scriptBroken = ''function draw( {''"

definition scriptPrototype :: string where
  "scriptPrototype = ''p5.prototype.foo = 1;''"

definition scriptNested :: string where
  "scriptNested = ''function f() { if (c) { var x = 1; } x; }''"

definition scriptNestedSetup :: string where
  "scriptNestedSetup = ''function main(){ function setup(){} }''"

definition programSetup :: program where
  "programSetup = [FunctionDeclaration (Some ''setup'') [] []]"

definition programPrototype :: program where
  "programPrototype =
     [ExpressionStatement
        (AssignmentExpression
           (MemberExpression
              (Callee (MemberExpression (Callee (Identifier ''p5'')) (Identifier ''prototype'')))
              (Identifier ''foo''))
           (Literal ''1''))]"

definition programNestedSetup :: program where
  "programNestedSetup =
     [FunctionDeclaration (Some ''main'') [] [FunctionDeclaration (Some ''setup'') [] []]]"

definition bodyNested :: "statement list" where
  "bodyNested =
     [IfStatement (Identifier ''c'')
        (BlockStatement
           [VariableDeclaration
              [VariableDeclarator (PatternIdentifier ''x'') (Some (Literal ''1''))]])
        None,
      ExpressionStatement (Identifier ''x'')]"

definition programNested :: program where
  "programNested = [FunctionDeclaration (Some ''f'') [] bodyNested]"

definition scriptHoisted :: string where
  "scriptHoisted = ''function f(a) { x; var x = g(a); function g(b) { return b; } y; }''"

definition bodyHoisted :: "statement list" where
  "bodyHoisted =
     [ExpressionStatement (Identifier ''x''),
      VariableDeclaration
        [VariableDeclarator (PatternIdentifier ''x'')
           (Some (CallExpression (Callee (Identifier ''g'')) [Argument (Identifier ''a'')]))],
      FunctionDeclaration (Some ''g'') [PatternIdentifier ''b'']
        [ReturnStatement (Some (Identifier ''b''))],
      ExpressionStatement (Identifier ''y'')]"

definition programHoisted :: program where
  "programHoisted = [FunctionDeclaration (Some ''f'') [PatternIdentifier ''a''] bodyHoisted]"

definition scriptTwoDeclarators :: string where
  "scriptTwoDeclarators = ''function f() { var a = 1, b = 2; b; }''"

definition bodyTwoDeclarators :: "statement list" where
  "bodyTwoDeclarators =
     [VariableDeclaration
        [VariableDeclarator (PatternIdentifier ''a'') (Some (Literal ''1'')),
         VariableDeclarator (PatternIdentifier ''b'') (Some (Literal ''2''))],
      ExpressionStatement (Identifier ''b'')]"

definition programTwoDeclarators :: program where
  "programTwoDeclarators = [FunctionDeclaration (Some ''f'') [] bodyTwoDeclarators]"

definition exampleScriptParser :: script_parser where
  "exampleScriptParser code =
     (if code = scriptSetup then Inr programSetup
      else if code = scriptPrototype then Inr programPrototype
      else if code = scriptNested then Inr programNested
      else if code = scriptNestedSetup then Inr programNestedSetup
      else if code = scriptHoisted then Inr programHoisted
      else if code = scriptTwoDeclarators then Inr programTwoDeclarators
      else Inl ''Line 1: Unexpected token {'')"

text \<open>
  Directories: a sketch with its markup and a note; the same with two scripts beside
  them; a markup file with the extension \<open>.htm\<close>; a markup file whose extension is in
  upper case.
\<close>

definition exampleFs :: filesystem where
  "exampleFs =
     [''site'' \<mapsto> Directory [''index.html'', ''notes.txt''],
      ''site/index.html'' \<mapsto> File markupP5Min,
      ''site/notes.txt'' \<mapsto> File ''hello'']"

definition scriptsFs :: filesystem where
  "scriptsFs =
     [''site'' \<mapsto> Directory [''index.html'', ''sketch.js'', ''main.js'', ''notes.txt''],
      ''site/index.html'' \<mapsto> File markupP5Min,
      ''site/sketch.js'' \<mapsto> File scriptSetup,
      ''site/main.js'' \<mapsto> File scriptSetup,
      ''site/notes.txt'' \<mapsto> File ''hello'']"

definition htmFs :: filesystem where
  "htmFs =
     [''site'' \<mapsto> Directory [''sketch.htm''],
      ''site/sketch.htm'' \<mapsto> File markupP5Min]"

definition upperCaseFs :: filesystem where
  "upperCaseFs =
     [''site'' \<mapsto> Directory [''INDEX.HTML''],
      ''site/INDEX.HTML'' \<mapsto> File markupP5Min]"

text \<open>A markup text with two title elements, in the sketch directory.\<close>

definition markupTwoTitles :: string where
  "markupTwoTitles = ''<title>A</title><title>B</title>''"

definition titleFs :: filesystem where
  "titleFs = [''site/index.html'' \<mapsto> File markupTwoTitles]"

section \<open>Evaluation of the examples\<close>

lemmas regex_defs =
  search_def matchP5Script_def wordBoundary_def isWordOpt_def headOpt_def isWordChar_def

lemmas fs_defs = statSync_def readFileSync_def readdirSync_def existsSync_def endsWith_def

lemmas markup_defs =
  exampleMarkupParser_def markupP5Min_def markupJquery_def markupP5_def markupP5Inline_def
  markupInline_def

section \<open>Searching with a regular expression\<close>

text \<open>
  \<open>search\<close> finds a match exactly when the test of the expression holds at some cut of
  the text.
\<close>

lemma searchFrom_nonneg_iff:
  "0 \<le> i \<Longrightarrow>
   0 \<le> searchFrom m prev s i \<longleftrightarrow>
     (\<exists>a b. s = a @ b \<and> m (if a = [] then prev else Some (last a)) b)"
proof (induction s arbitrary: prev i)
  case Nil
  then show ?case by simp
next
  case (Cons c cs)
  show ?case
  proof (cases "m prev (c # cs)")
    case True
    then have "c # cs = [] @ (c # cs) \<and> m (if [] = ([]::string) then prev else Some (last [])) (c # cs)"
      by simp
    then have "\<exists>a b. c # cs = a @ b \<and> m (if a = [] then prev else Some (last a)) b"
      by blast
    with True Cons.prems show ?thesis by simp
  next
    case False
    have ih: "0 \<le> searchFrom m (Some c) cs (i + 1) \<longleftrightarrow>
       (\<exists>a b. cs = a @ b \<and> m (if a = [] then Some c else Some (last a)) b)"
      using Cons.IH[of "i + 1" "Some c"] Cons.prems by simp
    have "(\<exists>a b. cs = a @ b \<and> m (if a = [] then Some c else Some (last a)) b) \<longleftrightarrow>
          (\<exists>a b. c # cs = a @ b \<and> m (if a = [] then prev else Some (last a)) b)"
      (is "?L \<longleftrightarrow> ?R")
    proof
      assume ?L
      then obtain a b where "cs = a @ b" "m (if a = [] then Some c else Some (last a)) b" by blast
      then have "c # cs = (c # a) @ b \<and> m (if c # a = [] then prev else Some (last (c # a))) b"
        by (cases "a = []") simp_all
      then show ?R by blast
    next
      assume ?R
      then obtain a b where h: "c # cs = a @ b" "m (if a = [] then prev else Some (last a)) b" by blast
      with False obtain a' where a: "a = c # a'" by (cases a) auto
      with h have "cs = a' @ b \<and> m (if a' = [] then Some c else Some (last a')) b"
        by (cases "a' = []") simp_all
      then show ?L by blast
    qed
    with ih False show ?thesis by simp
  qed
qed

lemma search_nonneg_iff:
  "0 \<le> search m s \<longleftrightarrow> (\<exists>a b. s = a @ b \<and> m (if a = [] then None else Some (last a)) b)"
  unfolding search_def by (rule searchFrom_nonneg_iff) simp

lemma startsWith_iff: "startsWith s p \<longleftrightarrow> (\<exists>r. s = p @ r)"
  unfolding startsWith_def
  by (metis append_eq_conv_conj append_take_drop_id)

text \<open>
  A successful \<open>search\<close> returns the length of the part before a cut at which the test
  holds.
\<close>

lemma searchFrom_cut:
  "0 \<le> i \<Longrightarrow> 0 \<le> searchFrom m prev s i \<Longrightarrow>
   \<exists>a b. s = a @ b \<and> m (if a = [] then prev else Some (last a)) b \<and>
     searchFrom m prev s i = i + int (length a)"
proof (induction s arbitrary: prev i)
  case Nil
  then show ?case by (auto split: if_splits)
next
  case (Cons c cs)
  show ?case
  proof (cases "m prev (c # cs)")
    case True
    then have "c # cs = [] @ (c # cs) \<and> m (if [] = ([]::string) then prev else Some (last [])) (c # cs) \<and>
      searchFrom m prev (c # cs) i = i + int (length ([]::string))" by simp
    then show ?thesis by blast
  next
    case False
    with Cons.prems have "0 \<le> i + 1" "0 \<le> searchFrom m (Some c) cs (i + 1)" by simp_all
    from Cons.IH[OF this] obtain a b where ab: "cs = a @ b"
      "m (if a = [] then Some c else Some (last a)) b"
      "searchFrom m (Some c) cs (i + 1) = i + 1 + int (length a)" by blast
    then have "c # cs = (c # a) @ b \<and> m (if c # a = [] then prev else Some (last (c # a))) b \<and>
      searchFrom m prev (c # cs) i = i + int (length (c # a))"
      using False by (cases "a = []") simp_all
    then show ?thesis by blast
  qed
qed

section \<open>Sketch-markup classification: the theorems\<close>

text \<open>
  The expression for the library script matches exactly the texts that end with
  \<open>p5.js\<close> or \<open>p5.min.js\<close>, the file name starting at a word boundary.
\<close>

lemma matchP5Script_iff:
  "matchP5Script prev rest \<longleftrightarrow> (rest = ''p5.js'' \<or> rest = ''p5.min.js'') \<and> \<not> isWordOpt prev"
  by (auto simp: matchP5Script_def wordBoundary_def headOpt_def isWordOpt_def isWordChar_def)

lemma search_p5ScriptSrc: "0 \<le> search matchP5Script s \<longleftrightarrow> spec_p5ScriptSrc s"
proof
  assume "0 \<le> search matchP5Script s"
  then obtain a b where "s = a @ b" "matchP5Script (if a = [] then None else Some (last a)) b"
    unfolding search_nonneg_iff by blast
  then have "s = a @ b \<and> (b = ''p5.js'' \<or> b = ''p5.min.js'') \<and>
      \<not> isWordOpt (if a = [] then None else Some (last a))"
    unfolding matchP5Script_iff by simp
  then show "spec_p5ScriptSrc s" unfolding spec_p5ScriptSrc_def by blast
next
  assume "spec_p5ScriptSrc s"
  then obtain a b where "s = a @ b \<and> (b = ''p5.js'' \<or> b = ''p5.min.js'') \<and>
      \<not> isWordOpt (if a = [] then None else Some (last a))"
    unfolding spec_p5ScriptSrc_def by blast
  then have "s = a @ b \<and> matchP5Script (if a = [] then None else Some (last a)) b"
    unfolding matchP5Script_iff by simp
  then show "0 \<le> search matchP5Script s" unfolding search_nonneg_iff by blast
qed

text \<open>
  C1. The specification classifies a markup file as sketch markup exactly when one of its
  script elements has a \<open>src\<close> that ends with \<open>p5.js\<close> or \<open>p5.min.js\<close>. The source tests
  the number that \<open>search\<close> returns for truth, where \<open>isSketchJs\<close> compares it with zero:
  \<open>-1\<close>, no match, counts as true and \<open>0\<close>, a match at the start, counts as false. So
  the markup whose only script is \<open>jquery.js\<close> is classified as sketch markup, and the
  markup whose only script is \<open>p5.js\<close> is not.
\<close>

theorem isSketchHtml_jquery_is_sketch:
  "map src (exampleMarkupParser markupJquery) = [Some ''jquery.js''] \<and>
   \<not> spec_p5ScriptSrc ''jquery.js'' \<and>
   isSketchHtml exampleMarkupParser [''site/index.html'' \<mapsto> File markupJquery]
     ''site/index.html'' = Inr True \<and>
   map src (exampleMarkupParser markupP5) = [Some ''p5.js''] \<and>
   spec_p5ScriptSrc ''p5.js'' \<and>
   isSketchHtml exampleMarkupParser [''site/index.html'' \<mapsto> File markupP5]
     ''site/index.html'' = Inr False"
proof -
  have a: "search matchP5Script ''jquery.js'' = - 1" by (simp add: regex_defs)
  have b: "search matchP5Script ''p5.js'' = 0" by (simp add: regex_defs)
  from a have n: "\<not> spec_p5ScriptSrc ''jquery.js''"
    using search_p5ScriptSrc[of "''jquery.js''"] by simp
  from b have y: "spec_p5ScriptSrc ''p5.js''"
    using search_p5ScriptSrc[of "''p5.js''"] by simp
  have c: "map src (exampleMarkupParser markupJquery) = [Some ''jquery.js'']"
    "map src (exampleMarkupParser markupP5) = [Some ''p5.js'']"
    by (simp_all add: markup_defs src_def)
  have d: "isSketchHtml exampleMarkupParser [''site/index.html'' \<mapsto> File markupJquery]
     ''site/index.html'' = Inr True"
    "isSketchHtml exampleMarkupParser [''site/index.html'' \<mapsto> File markupP5]
     ''site/index.html'' = Inr False"
    using a b c by (simp_all add: isSketchHtml_def fs_defs)
  from n y c d show ?thesis by (intro conjI)
qed






lemmas script_defs =
  exampleScriptParser_def scriptSetup_def scriptBroken_def scriptPrototype_def
  scriptNested_def scriptNestedSetup_def scriptHoisted_def scriptTwoDeclarators_def

section \<open>Parsing: the theorems\<close>

text \<open>
  C9. Once the text of the file is read, \<open>checkedParseScript\<close> and \<open>parseOrReadJs\<close>
  have one of two outcomes: the tree that the parser returns for the text, or a
  \<open>JavascriptSyntaxError\<close> whose message is the message of the parser's error, whose
  file name is the path given and whose code is the text as it was read. The two
  outcomes exclude each other, and there is no third.
\<close>

theorem parse_tree_or_syntax_error:
  assumes "readFileSync fs filePath = Inr code"
  shows "(\<exists>tree. parseScript code = Inr tree \<and>
            checkedParseScript parseScript fs filePath = Inr tree \<and>
            parseOrReadJs parseScript fs filePath = Inr tree) \<or>
         (\<exists>msg. parseScript code = Inl msg \<and>
            checkedParseScript parseScript fs filePath =
              Inl (JavascriptSyntaxError msg filePath code) \<and>
            parseOrReadJs parseScript fs filePath =
              Inl (JavascriptSyntaxError msg filePath code))"
proof (cases "parseScript code")
  case (Inl msg)
  with assms show ?thesis by (simp add: checkedParseScript_def parseOrReadJs_def)
next
  case (Inr tree)
  with assms show ?thesis by (simp add: checkedParseScript_def parseOrReadJs_def)
qed

text \<open>The unparsable text gives the error with that text, the parsable one its tree.\<close>

theorem parse_tree_or_syntax_error_witness:
  "checkedParseScript exampleScriptParser [''site/sketch.js'' \<mapsto> File scriptBroken] ''site/sketch.js'' =
     Inl (JavascriptSyntaxError ''Line 1: Unexpected token {'' ''site/sketch.js'' scriptBroken) \<and>
   parseOrReadJs exampleScriptParser [''site/sketch.js'' \<mapsto> File scriptSetup] ''site/sketch.js'' =
     Inr programSetup"
proof -
  have r1: "readFileSync [''site/sketch.js'' \<mapsto> File scriptBroken] ''site/sketch.js'' = Inr scriptBroken"
    by (simp add: readFileSync_def)
  have p1: "exampleScriptParser scriptBroken = Inl ''Line 1: Unexpected token {''"
    by (simp add: script_defs)
  have r2: "readFileSync [''site/sketch.js'' \<mapsto> File scriptSetup] ''site/sketch.js'' = Inr scriptSetup"
    by (simp add: readFileSync_def)
  have p2: "exampleScriptParser scriptSetup = Inr programSetup"
    by (simp add: script_defs)
  from parse_tree_or_syntax_error[OF r1, of exampleScriptParser] p1
  have a: "checkedParseScript exampleScriptParser [''site/sketch.js'' \<mapsto> File scriptBroken] ''site/sketch.js'' =
     Inl (JavascriptSyntaxError ''Line 1: Unexpected token {'' ''site/sketch.js'' scriptBroken)"
    by auto
  from parse_tree_or_syntax_error[OF r2, of exampleScriptParser] p2
  have b: "parseOrReadJs exampleScriptParser [''site/sketch.js'' \<mapsto> File scriptSetup] ''site/sketch.js'' =
     Inr programSetup"
    by auto
  from a b show ?thesis by simp
qed

section \<open>Member references: the theorems\<close>

text \<open>
  C4, as the source has it. For the text \<open>p5.prototype.foo = 1;\<close> the result of
  \<open>findP5MemberReferences\<close> is the empty set: of an assignment only the right-hand side is
  walked, and a member access whose object is itself a member access yields nothing,
  neither \<open>prototype\<close> nor \<open>foo\<close>. A member access yields its property name when its
  object is the identifier \<open>p5\<close> itself and its property is an identifier, and only
  then: with any other object, or with a property that is not an identifier, it yields
  nothing, and its object and its property are not walked.
\<close>

theorem findP5MemberReferences_prototype_chain:
  "exampleScriptParser scriptPrototype = Inr programPrototype \<and>
   findP5MemberReferences programPrototype = {} \<and>
   p5IterExpression (AssignmentExpression l r) = p5IterExpression r \<and>
   p5IterExpression (MemberExpression (Callee (MemberExpression obj prop)) prop') = [] \<and>
   p5IterExpression (MemberExpression (Callee (Identifier ''p5'')) (Identifier m)) = [m] \<and>
   (object \<noteq> Callee (Identifier ''p5'') \<or> (\<forall>n. property \<noteq> Identifier n) \<longrightarrow>
      p5IterExpression (MemberExpression object property) = [])"
proof -
  have a: "exampleScriptParser scriptPrototype = Inr programPrototype"
    by (simp add: script_defs)
  have b: "findP5MemberReferences programPrototype = {}"
    by (simp add: findP5MemberReferences_def iterProgram_def programPrototype_def)
  have c: "p5IterExpression (AssignmentExpression l r) = p5IterExpression r" by simp
  have d: "p5IterExpression (MemberExpression (Callee (MemberExpression obj prop)) prop') = []"
    by simp
  have e: "p5IterExpression (MemberExpression (Callee (Identifier ''p5'')) (Identifier m)) = [m]"
    by simp
  have f: "p5IterExpression (MemberExpression object property) = []"
    if h: "object \<noteq> Callee (Identifier ''p5'') \<or> (\<forall>n. property \<noteq> Identifier n)"
  proof (cases object)
    case Super
    then show ?thesis by simp
  next
    case (Callee x)
    show ?thesis
    proof (cases x)
      case (Identifier n)
      show ?thesis
      proof (cases "n = ''p5''")
        case True
        with Callee Identifier h have "\<forall>k. property \<noteq> Identifier k" by simp
        with Callee Identifier True show ?thesis by (cases property) simp_all
      next
        case False
        with Callee Identifier show ?thesis by simp
      qed
    qed (use Callee in simp_all)
  qed
  from a b c d e f show ?thesis by blast
qed

text \<open>
  The text of the claim, a member access on another identifier, and a member access on
  \<open>p5\<close> whose property is a literal.
\<close>

theorem findP5MemberReferences_prototype_chain_witness:
  "findP5MemberReferences programPrototype = {} \<and>
   p5IterExpression (MemberExpression (Callee (Identifier ''q5'')) (Identifier ''X'')) = [] \<and>
   p5IterExpression (MemberExpression (Callee (Identifier ''p5'')) (Literal ''d'')) = [] \<and>
   p5IterExpression (MemberExpression (Callee (Identifier ''p5'')) (Identifier ''prototype'')) =
     [''prototype'']"
proof -
  note t = findP5MemberReferences_prototype_chain
  have h1: "Callee (Identifier ''q5'') \<noteq> Callee (Identifier ''p5'') \<or>
      (\<forall>n. Identifier ''X'' \<noteq> Identifier n)" by simp
  have h2: "Callee (Identifier ''p5'') \<noteq> Callee (Identifier ''p5'') \<or>
      (\<forall>n. Literal ''d'' \<noteq> Identifier n)" by simp
  from t have a: "findP5MemberReferences programPrototype = {}" by blast
  from t[where object = "Callee (Identifier ''q5'')" and property = "Identifier ''X''"] h1
  have b: "p5IterExpression (MemberExpression (Callee (Identifier ''q5'')) (Identifier ''X'')) = []"
    by blast
  from t[where object = "Callee (Identifier ''p5'')" and property = "Literal ''d''"] h2
  have c: "p5IterExpression (MemberExpression (Callee (Identifier ''p5'')) (Literal ''d'')) = []"
    by blast
  from t[where m = "''prototype''"]
  have d: "p5IterExpression (MemberExpression (Callee (Identifier ''p5'')) (Identifier ''prototype'')) =
     [''prototype'']"
    by blast
  from a b c d show ?thesis by (intro conjI)
qed

text \<open>
  C4 as the specification words it fails: the result for \<open>p5.prototype.foo = 1;\<close> is not
  the set that holds \<open>prototype\<close>.
\<close>

theorem findP5MemberReferences_prototype_not_reported:
  "exampleScriptParser scriptPrototype = Inr programPrototype \<and>
   findP5MemberReferences programPrototype \<noteq> {''prototype''}"
  by (simp add: script_defs findP5MemberReferences_def iterProgram_def programPrototype_def)

section \<open>Sketch-script classification: the theorems\<close>

lemma matchName_iff:
  assumes "nm = ''setup'' \<or> nm = ''draw''"
  shows "matchName nm r \<longleftrightarrow> (\<exists>after. r = nm @ after \<and> \<not> isWordOpt (headOpt after))"
proof -
  have w: "isWordChar (last nm)" using assms by (auto simp: isWordChar_def)
  show ?thesis
    unfolding matchName_def startsWith_iff wordBoundary_def
    using w by (auto simp: isWordOpt_def)
qed

lemma not_space_setup_draw:
  assumes "nm = ''setup'' \<or> nm = ''draw''"
  shows "dropWhile isSpace (nm @ after) = nm @ after"
  using assms by (auto simp: isSpace_def)

lemma matchFunctionSetupDraw_iff:
  "matchFunctionSetupDraw prev rest \<longleftrightarrow>
     (\<exists>ws nm after. rest = ''function'' @ ws @ nm @ after \<and> ws \<noteq> [] \<and> list_all isSpace ws \<and>
        (nm = ''setup'' \<or> nm = ''draw'') \<and> \<not> isWordOpt (headOpt after))"
  (is "?L \<longleftrightarrow> ?R")
proof
  assume l: ?L
  then obtain r1 where r1: "rest = ''function'' @ r1"
    unfolding matchFunctionSetupDraw_def startsWith_iff by blast
  define ws where "ws = takeWhile isSpace r1"
  define r2 where "r2 = dropWhile isSpace r1"
  have d: "r1 = ws @ r2" by (simp add: ws_def r2_def)
  have sp: "list_all isSpace ws" unfolding ws_def list_all_iff by (auto dest: set_takeWhileD)
  from l r1 have ne: "r2 \<noteq> r1" and mn: "matchName ''setup'' r2 \<or> matchName ''draw'' r2"
    unfolding matchFunctionSetupDraw_def r2_def by (simp_all add: Let_def)
  from ne d have wne: "ws \<noteq> []" by auto
  from mn obtain nm after where "nm = ''setup'' \<or> nm = ''draw''" "r2 = nm @ after"
    "\<not> isWordOpt (headOpt after)"
    using matchName_iff[of "''setup''" r2] matchName_iff[of "''draw''" r2] by blast
  with r1 d sp wne show ?R by auto
next
  assume ?R
  then obtain ws nm after where h: "rest = ''function'' @ ws @ nm @ after" "ws \<noteq> []"
    "list_all isSpace ws" "nm = ''setup'' \<or> nm = ''draw''" "\<not> isWordOpt (headOpt after)" by blast
  have s: "startsWith rest ''function''" using h(1) by (simp add: startsWith_def)
  have d8: "drop 8 rest = ws @ nm @ after" using h(1) by simp
  have dw: "dropWhile isSpace (ws @ nm @ after) = nm @ after"
    using h(3) not_space_setup_draw[OF h(4)] by (simp add: dropWhile_append2 list_all_iff)
  have ne: "nm @ after \<noteq> ws @ nm @ after" using h(2) by simp
  have mn: "matchName nm (nm @ after)" using matchName_iff[OF h(4)] h(5) by blast
  show ?L unfolding matchFunctionSetupDraw_def using s d8 dw ne mn h(4) by (auto simp: Let_def)
qed

lemma search_functionSetupDraw:
  "0 \<le> search matchFunctionSetupDraw s \<longleftrightarrow> spec_functionSetupDraw s"
proof
  assume "0 \<le> search matchFunctionSetupDraw s"
  then obtain a b where "s = a @ b" "matchFunctionSetupDraw (if a = [] then None else Some (last a)) b"
    unfolding search_nonneg_iff by blast
  then obtain ws nm after where "s = a @ ''function'' @ ws @ nm @ after" "ws \<noteq> []"
    "list_all isSpace ws" "nm = ''setup'' \<or> nm = ''draw''" "\<not> isWordOpt (headOpt after)"
    unfolding matchFunctionSetupDraw_iff by blast
  then show "spec_functionSetupDraw s" unfolding spec_functionSetupDraw_def by blast
next
  assume "spec_functionSetupDraw s"
  then obtain a ws nm after where h: "s = a @ ''function'' @ ws @ nm @ after" "ws \<noteq> []"
    "list_all isSpace ws" "nm = ''setup'' \<or> nm = ''draw''" "\<not> isWordOpt (headOpt after)"
    unfolding spec_functionSetupDraw_def by blast
  then have "matchFunctionSetupDraw (if a = [] then None else Some (last a))
      (''function'' @ ws @ nm @ after)"
    unfolding matchFunctionSetupDraw_iff by blast
  with h(1) show "0 \<le> search matchFunctionSetupDraw s"
    unfolding search_nonneg_iff by blast
qed

lemma top_level_names_iff:
  "(Some nm \<in> set (map functionName (filter isFunctionDeclaration tree))) \<longleftrightarrow>
   (\<exists>params body. FunctionDeclaration (Some nm) params body \<in> set tree)"
proof
  assume "Some nm \<in> set (map functionName (filter isFunctionDeclaration tree))"
  then obtain fd where fd: "fd \<in> set tree" "isFunctionDeclaration fd" "functionName fd = Some nm"
    by auto
  show "\<exists>params body. FunctionDeclaration (Some nm) params body \<in> set tree"
  proof (cases fd)
    case (FunctionDeclaration fid params body)
    with fd show ?thesis by auto
  qed (use fd in simp_all)
next
  assume "\<exists>params body. FunctionDeclaration (Some nm) params body \<in> set tree"
  then obtain params body where "FunctionDeclaration (Some nm) params body \<in> set tree" by blast
  then have "FunctionDeclaration (Some nm) params body \<in> set (filter isFunctionDeclaration tree)"
    by simp
  then have "functionName (FunctionDeclaration (Some nm) params body)
      \<in> set (map functionName (filter isFunctionDeclaration tree))"
    unfolding set_map by (rule imageI)
  then show "Some nm \<in> set (map functionName (filter isFunctionDeclaration tree))" by simp
qed

text \<open>
  C5. For a path that ends with \<open>.js\<close> and names a file: when the text parses,
  \<open>isSketchJs\<close> returns whether a function declaration named \<open>setup\<close> or \<open>draw\<close>
  stands among the top-level statements of the tree (a declaration nested in another
  function is not among them); when the parser fails, it returns whether the text holds the
  word \<open>function\<close>, white space, then \<open>setup\<close> or \<open>draw\<close> as a whole word, and the
  syntax error is not raised. An error that is not a syntax error (the file cannot be read,
  the path names nothing) is raised unchanged.
\<close>

theorem isSketchJs_classification:
  assumes "endsWith filePath ''.js''"
  shows "(\<forall>code tree. fs filePath = Some (File code) \<and> parseScript code = Inr tree \<longrightarrow>
            isSketchJs parseScript fs filePath =
              Inr (\<exists>nm params body. (nm = ''setup'' \<or> nm = ''draw'') \<and>
                     FunctionDeclaration (Some nm) params body \<in> set tree)) \<and>
         (\<forall>code msg. fs filePath = Some (File code) \<and> parseScript code = Inl msg \<longrightarrow>
            isSketchJs parseScript fs filePath = Inr (spec_functionSetupDraw code)) \<and>
         (\<forall>c. fs filePath = Some (Unreadable c) \<longrightarrow>
            isSketchJs parseScript fs filePath = Inl (SystemError c)) \<and>
         (fs filePath = None \<longrightarrow>
            isSketchJs parseScript fs filePath = Inl (SystemError ''ENOENT''))"
proof (intro conjI allI impI)
  fix code tree
  assume h: "fs filePath = Some (File code) \<and> parseScript code = Inr tree"
  have "(Some ''setup'' \<in> set (map functionName (filter isFunctionDeclaration tree)) \<or>
         Some ''draw'' \<in> set (map functionName (filter isFunctionDeclaration tree))) \<longleftrightarrow>
        (\<exists>nm params body. (nm = ''setup'' \<or> nm = ''draw'') \<and>
                     FunctionDeclaration (Some nm) params body \<in> set tree)"
    unfolding top_level_names_iff by blast
  with h assms show "isSketchJs parseScript fs filePath =
              Inr (\<exists>nm params body. (nm = ''setup'' \<or> nm = ''draw'') \<and>
                     FunctionDeclaration (Some nm) params body \<in> set tree)"
    by (simp add: isSketchJs_def statSync_def parseOrReadJs_def readFileSync_def)
next
  fix code msg
  assume h: "fs filePath = Some (File code) \<and> parseScript code = Inl msg"
  with assms show "isSketchJs parseScript fs filePath = Inr (spec_functionSetupDraw code)"
    by (simp add: isSketchJs_def statSync_def parseOrReadJs_def readFileSync_def
        search_functionSetupDraw)
next
  fix c
  assume "fs filePath = Some (Unreadable c)"
  with assms show "isSketchJs parseScript fs filePath = Inl (SystemError c)"
    by (simp add: isSketchJs_def statSync_def parseOrReadJs_def readFileSync_def)
next
  assume "fs filePath = None"
  then show "isSketchJs parseScript fs filePath = Inl (SystemError ''ENOENT'')"
    by (simp add: isSketchJs_def statSync_def)
qed

text \<open>
  A top-level \<open>setup\<close>, a nested \<open>setup\<close>, an unparsable text that holds
  \<open>function draw(\<close>, and a file that cannot be read.
\<close>

theorem isSketchJs_classification_witness:
  "isSketchJs exampleScriptParser [''site/sketch.js'' \<mapsto> File scriptSetup] ''site/sketch.js'' = Inr True \<and>
   isSketchJs exampleScriptParser [''site/sketch.js'' \<mapsto> File scriptNestedSetup] ''site/sketch.js'' = Inr False \<and>
   isSketchJs exampleScriptParser [''site/sketch.js'' \<mapsto> File scriptBroken] ''site/sketch.js'' = Inr True \<and>
   isSketchJs exampleScriptParser [''site/sketch.js'' \<mapsto> Unreadable ''EACCES''] ''site/sketch.js'' =
     Inl (SystemError ''EACCES'')"
proof -
  have e: "endsWith ''site/sketch.js'' ''.js''" by (simp add: endsWith_def)
  note t = isSketchJs_classification[OF e, of _ exampleScriptParser]
  have p1: "exampleScriptParser scriptSetup = Inr programSetup" by (simp add: script_defs)
  have p2: "exampleScriptParser scriptNestedSetup = Inr programNestedSetup" by (simp add: script_defs)
  have p3: "exampleScriptParser scriptBroken = Inl ''Line 1: Unexpected token {''"
    by (simp add: script_defs)
  have s1: "\<exists>nm params body. (nm = ''setup'' \<or> nm = ''draw'') \<and>
      FunctionDeclaration (Some nm) params body \<in> set programSetup"
    by (simp add: programSetup_def)
  have s2: "\<not> (\<exists>nm params body. (nm = ''setup'' \<or> nm = ''draw'') \<and>
      FunctionDeclaration (Some nm) params body \<in> set programNestedSetup)"
    by (simp add: programNestedSetup_def)
  have "scriptBroken = [] @ ''function'' @ '' '' @ ''draw'' @ ''( {'' \<and> '' '' \<noteq> [] \<and>
      list_all isSpace '' '' \<and> (''draw'' = ''setup'' \<or> ''draw'' = ''draw'') \<and>
      \<not> isWordOpt (headOpt ''( {'')"
    by (simp add: scriptBroken_def isSpace_def isWordOpt_def headOpt_def isWordChar_def)
  then have s3: "spec_functionSetupDraw scriptBroken"
    unfolding spec_functionSetupDraw_def by blast
  have a: "isSketchJs exampleScriptParser [''site/sketch.js'' \<mapsto> File scriptSetup] ''site/sketch.js'' = Inr True"
    using t[of "[''site/sketch.js'' \<mapsto> File scriptSetup]"] p1 s1 by simp
  have b: "isSketchJs exampleScriptParser [''site/sketch.js'' \<mapsto> File scriptNestedSetup] ''site/sketch.js'' = Inr False"
    using t[of "[''site/sketch.js'' \<mapsto> File scriptNestedSetup]"] p2 s2 by simp
  have c: "isSketchJs exampleScriptParser [''site/sketch.js'' \<mapsto> File scriptBroken] ''site/sketch.js'' = Inr True"
    using t[of "[''site/sketch.js'' \<mapsto> File scriptBroken]"] p3 s3 by simp
  have d: "isSketchJs exampleScriptParser [''site/sketch.js'' \<mapsto> Unreadable ''EACCES''] ''site/sketch.js'' =
     Inl (SystemError ''EACCES'')"
    using t[of "[''site/sketch.js'' \<mapsto> Unreadable ''EACCES'']"] by simp
  from a b c d show ?thesis by simp
qed

section \<open>The directory scan: the theorems\<close>

lemmas project_defs = newProject_def files_def truthy_def basename_def

lemmas scan_defs =
  findProjects_def glob_sync_def globMatch_def removeProjectFiles_def path_join_def

text \<open>The base name of a name without a separator is the name.\<close>

lemma basename_plain: "CHR ''/'' \<notin> set n \<Longrightarrow> basename n = n"
proof -
  assume a: "CHR ''/'' \<notin> set n"
  then have d: "dropWhile (\<lambda>c. c = CHR ''/'') (rev n) = rev n"
    by (cases "rev n") (auto simp: rev_eq_Cons_iff)
  from a have t: "takeWhile (\<lambda>c. c \<noteq> CHR ''/'') (rev n) = rev n"
    by (auto intro: takeWhile_eq_all_conv[THEN iffD2])
  show ?thesis unfolding basename_def d t by simp
qed

lemma files_markup_project:
  "file \<noteq> [] \<Longrightarrow> CHR ''/'' \<notin> set file \<Longrightarrow>
   files (newProject dir (Some (Some file)) None None) = [file, ''sketch.js'']"
  using basename_plain[of "file"] basename_plain[of "''sketch.js''"]
  by (simp add: files_def newProject_def truthy_def)

lemma files_script_project:
  "file \<noteq> [] \<Longrightarrow> CHR ''/'' \<notin> set file \<Longrightarrow>
   files (newProject dir (Some None) (Some file) None) = [file]"
  using basename_plain[of "file"]
  by (simp add: files_def newProject_def truthy_def)

text \<open>
  The two loops: when a loop ends without an error, every candidate was classified, and
  the projects pushed are those of the candidates classified true, in order.
\<close>

lemma htmlProjects_result:
  "htmlProjects q fs dir cands = Inr ps \<Longrightarrow>
   ps = map (\<lambda>f. newProject dir (Some (Some f)) None None)
          (filter (\<lambda>f. isSketchHtml q fs (path_join dir f) = Inr True) cands) \<and>
   (\<forall>f\<in>set cands. \<exists>b. isSketchHtml q fs (path_join dir f) = Inr b)"
proof (induction cands arbitrary: ps)
  case Nil
  then show ?case by simp
next
  case (Cons fname rest)
  from Cons.prems obtain b ps' where b: "isSketchHtml q fs (path_join dir fname) = Inr b"
    and r: "htmlProjects q fs dir rest = Inr ps'"
    and p: "ps = (if b then [newProject dir (Some (Some fname)) None None] else []) @ ps'"
    by (auto split: sum.splits)
  from Cons.IH[OF r] b p show ?case by (cases b) auto
qed

lemma jsProjects_result:
  "jsProjects parseScript fs dir cands = Inr ps \<Longrightarrow>
   ps = map (\<lambda>f. newProject dir (Some None) (Some f) None)
          (filter (\<lambda>f. isSketchJs parseScript fs (path_join dir f) = Inr True) cands) \<and>
   (\<forall>f\<in>set cands. \<exists>b. isSketchJs parseScript fs (path_join dir f) = Inr b)"
proof (induction cands arbitrary: ps)
  case Nil
  then show ?case by simp
next
  case (Cons fname rest)
  from Cons.prems obtain b ps' where b: "isSketchJs parseScript fs (path_join dir fname) = Inr b"
    and r: "jsProjects parseScript fs dir rest = Inr ps'"
    and p: "ps = (if b then [newProject dir (Some None) (Some fname) None] else []) @ ps'"
    by (auto split: sum.splits)
  from Cons.IH[OF r] b p show ?case by (cases b) auto
qed

lemma globMatch_plain: "globMatch n \<Longrightarrow> n \<noteq> [] \<and> CHR ''/'' \<notin> set n"
  by (simp add: globMatch_def)

lemma glob_sync_members:
  "n \<in> set (glob_sync fs dir) \<Longrightarrow> globMatch n \<and> (\<exists>names. fs dir = Some (Directory names) \<and> n \<in> set names)"
  by (cases "fs dir") (auto simp: glob_sync_def split: entry.splits)

text \<open>What a successful scan is made of.\<close>

lemma findProjects_parts:
  assumes "findProjects q parseScript fs dir = Inr (residual, projects)"
  obtains names projects1 projects2 where
    "fs dir = Some (Directory names)"
    "htmlProjects q fs dir (glob_sync fs dir) = Inr projects1"
    "jsProjects parseScript fs dir (removeProjectFiles names projects1) = Inr projects2"
    "projects = projects1 @ projects2"
    "residual = removeProjectFiles names projects"
proof -
  from assms obtain projects1 where p1: "htmlProjects q fs dir (glob_sync fs dir) = Inr projects1"
    by (auto simp: findProjects_def split: sum.splits)
  from assms p1 obtain names where n: "readdirSync fs dir = Inr names"
    by (auto simp: findProjects_def split: sum.splits)
  from assms p1 n obtain projects2 where
    p2: "jsProjects parseScript fs dir (removeProjectFiles names projects1) = Inr projects2"
    by (auto simp: findProjects_def split: sum.splits)
  from assms p1 n p2 have r: "projects = projects1 @ projects2"
    "residual = removeProjectFiles names projects"
    by (auto simp: findProjects_def)
  from n have "fs dir = Some (Directory names)"
    by (auto simp: readdirSync_def split: option.splits entry.splits)
  with p1 p2 r show ?thesis using that by blast
qed

lemma markup_projects_shape:
  assumes "htmlProjects q fs dir (glob_sync fs dir) = Inr projects1"
    and "p \<in> set projects1"
  shows "\<exists>f\<in>set (glob_sync fs dir). isSketchHtml q fs (path_join dir f) = Inr True \<and>
           p = newProject dir (Some (Some f)) None None \<and> files p = [f, ''sketch.js'']"
proof -
  from htmlProjects_result[OF assms(1)] assms(2)
  obtain f where f: "f \<in> set (glob_sync fs dir)" "isSketchHtml q fs (path_join dir f) = Inr True"
    "p = newProject dir (Some (Some f)) None None"
    by auto
  from f(1) have "f \<noteq> [] \<and> CHR ''/'' \<notin> set f"
    using glob_sync_members globMatch_plain by blast
  then have "files p = [f, ''sketch.js'']" using f(3) files_markup_project by simp
  with f show ?thesis by blast
qed

lemma script_projects_shape:
  assumes "jsProjects parseScript fs dir cands = Inr projects2"
    and "p \<in> set projects2"
    and "\<forall>n\<in>set cands. n \<noteq> [] \<and> CHR ''/'' \<notin> set n"
  shows "\<exists>f\<in>set cands. p = newProject dir (Some None) (Some f) None \<and> files p = [f]"
proof -
  from jsProjects_result[OF assms(1)] assms(2)
  obtain f where f: "f \<in> set cands" "p = newProject dir (Some None) (Some f) None"
    by auto
  with assms(3) have "files p = [f]" using files_script_project by simp
  with f show ?thesis by blast
qed

text \<open>
  C6, as the source has it. In a scan that returns, every markup file that the first
  loop enumerates and classifies as sketch markup gives a project that names it, and every
  project with a markup file comes from such a file. The constructor is called without a
  script argument, so the script of the project is always the default \<open>sketch.js\<close>:
  \<open>files\<close> is the markup name followed by \<open>sketch.js\<close>, whether the markup refers to a
  script of that name or not.
\<close>

theorem findProjects_markup_project_files:
  assumes "findProjects q parseScript fs dir = Inr (residual, projects)"
  shows "(\<forall>f\<in>set (glob_sync fs dir). isSketchHtml q fs (path_join dir f) = Inr True \<longrightarrow>
            (\<exists>p\<in>set projects. dirPath p = dir \<and> indexPath p = Some f \<and>
               sketchPath p = ''sketch.js'' \<and> files p = [f, ''sketch.js''])) \<and>
         (\<forall>p\<in>set projects. indexPath p \<noteq> None \<longrightarrow>
            (\<exists>f\<in>set (glob_sync fs dir). isSketchHtml q fs (path_join dir f) = Inr True \<and>
               p = newProject dir (Some (Some f)) None None \<and> files p = [f, ''sketch.js'']))"
proof -
  from assms obtain names projects1 projects2 where
    parts: "fs dir = Some (Directory names)"
      "htmlProjects q fs dir (glob_sync fs dir) = Inr projects1"
      "jsProjects parseScript fs dir (removeProjectFiles names projects1) = Inr projects2"
      "projects = projects1 @ projects2"
    by (rule findProjects_parts)
  have a: "\<exists>p\<in>set projects. dirPath p = dir \<and> indexPath p = Some f \<and>
               sketchPath p = ''sketch.js'' \<and> files p = [f, ''sketch.js'']"
    if f: "f \<in> set (glob_sync fs dir)" "isSketchHtml q fs (path_join dir f) = Inr True" for f
  proof -
    let ?p = "newProject dir (Some (Some f)) None None"
    from htmlProjects_result[OF parts(2)] f have "?p \<in> set projects1" by auto
    then have m: "?p \<in> set projects" using parts(4) by simp
    from f(1) have "f \<noteq> [] \<and> CHR ''/'' \<notin> set f"
      using glob_sync_members globMatch_plain by blast
    then have "files ?p = [f, ''sketch.js'']" using files_markup_project by simp
    moreover have "dirPath ?p = dir \<and> indexPath ?p = Some f \<and> sketchPath ?p = ''sketch.js''"
      by (simp add: newProject_def)
    ultimately show ?thesis using m by blast
  qed
  have b: "\<exists>f\<in>set (glob_sync fs dir). isSketchHtml q fs (path_join dir f) = Inr True \<and>
               p = newProject dir (Some (Some f)) None None \<and> files p = [f, ''sketch.js'']"
    if p: "p \<in> set projects" "indexPath p \<noteq> None" for p
  proof -
    have "p \<notin> set projects2"
    proof
      assume "p \<in> set projects2"
      with jsProjects_result[OF parts(3)] have "indexPath p = None"
        by (auto simp: newProject_def)
      with p(2) show False by simp
    qed
    with p(1) parts(4) have "p \<in> set projects1" by simp
    with markup_projects_shape[OF parts(2)] show ?thesis by blast
  qed
  from a b show ?thesis by blast
qed

text \<open>The directory with \<open>index.html\<close> and a note.\<close>

theorem findProjects_markup_project_files_witness:
  "\<exists>residual projects.
     findProjects exampleMarkupParser exampleScriptParser exampleFs ''site'' = Inr (residual, projects) \<and>
     ''index.html'' \<in> set (glob_sync exampleFs ''site'') \<and>
     isSketchHtml exampleMarkupParser exampleFs (path_join ''site'' ''index.html'') = Inr True \<and>
     (\<exists>p\<in>set projects. dirPath p = ''site'' \<and> indexPath p = Some ''index.html'' \<and>
        sketchPath p = ''sketch.js'' \<and> files p = [''index.html'', ''sketch.js''])"
proof -
  have r: "findProjects exampleMarkupParser exampleScriptParser exampleFs ''site'' =
     Inr ([''notes.txt''], [newProject ''site'' (Some (Some ''index.html'')) None None])"
    by (simp add: exampleFs_def scan_defs isSketchHtml_def isSketchJs_def fs_defs markup_defs
        src_def regex_defs project_defs)
  have g: "''index.html'' \<in> set (glob_sync exampleFs ''site'')"
    by (simp add: exampleFs_def glob_sync_def globMatch_def endsWith_def)
  have c: "isSketchHtml exampleMarkupParser exampleFs (path_join ''site'' ''index.html'') = Inr True"
    by (simp add: exampleFs_def path_join_def isSketchHtml_def fs_defs markup_defs src_def regex_defs)
  from findProjects_markup_project_files[OF r] g c
  have "\<exists>p\<in>set [newProject ''site'' (Some (Some ''index.html'')) None None].
      dirPath p = ''site'' \<and> indexPath p = Some ''index.html'' \<and>
        sketchPath p = ''sketch.js'' \<and> files p = [''index.html'', ''sketch.js'']"
    by blast
  with r g c show ?thesis by blast
qed

text \<open>
  C6 as the specification words it fails: the only script that the markup of
  \<open>index.html\<close> refers to is \<open>lib/p5.min.js\<close>, and the project of \<open>index.html\<close> lists
  the script \<open>sketch.js\<close>.
\<close>

theorem findProjects_default_script_listed:
  "map src (exampleMarkupParser markupP5Min) = [Some ''lib/p5.min.js''] \<and>
   findProjects exampleMarkupParser exampleScriptParser exampleFs ''site'' =
     Inr ([''notes.txt''], [newProject ''site'' (Some (Some ''index.html'')) None None]) \<and>
   files (newProject ''site'' (Some (Some ''index.html'')) None None) =
     [''index.html'', ''sketch.js'']"
  by (simp add: exampleFs_def scan_defs isSketchHtml_def isSketchJs_def fs_defs markup_defs
      src_def regex_defs project_defs)

lemma removeProjectFiles_set:
  "set (removeProjectFiles names projects) =
   set names - (\<Union>p\<in>set projects. set (files p))"
  by (auto simp: removeProjectFiles_def list_ex_iff)

text \<open>
  C2, as the source has it. In a scan that returns, for a directory whose names are not
  empty and hold no separator: no name is both in the residual list and in the files of a
  project; every name of the directory is in one of the two; and the two together are the
  names of the directory, with the default script name \<open>sketch.js\<close> added as soon as one
  project has a markup file, whether the directory holds a file of that name or not.
\<close>

theorem findProjects_partition:
  assumes "findProjects q parseScript fs dir = Inr (residual, projects)"
    and "fs dir = Some (Directory names)"
    and "\<forall>n\<in>set names. n \<noteq> [] \<and> CHR ''/'' \<notin> set n"
  shows "set residual \<inter> (\<Union>p\<in>set projects. set (files p)) = {} \<and>
         set names \<subseteq> set residual \<union> (\<Union>p\<in>set projects. set (files p)) \<and>
         set residual \<union> (\<Union>p\<in>set projects. set (files p)) =
           set names \<union> (if \<exists>p\<in>set projects. indexPath p \<noteq> None then {''sketch.js''} else {})"
proof -
  from assms(1) obtain names' projects1 projects2 where
    parts: "fs dir = Some (Directory names')"
      "htmlProjects q fs dir (glob_sync fs dir) = Inr projects1"
      "jsProjects parseScript fs dir (removeProjectFiles names' projects1) = Inr projects2"
      "projects = projects1 @ projects2"
      "residual = removeProjectFiles names' projects"
    by (rule findProjects_parts)
  from parts(1) assms(2) have n: "names' = names" by simp
  let ?U = "\<Union>p\<in>set projects. set (files p)"
  have res: "set residual = set names - ?U"
    using parts(5) n by (simp add: removeProjectFiles_set)
  have glob: "set (glob_sync fs dir) \<subseteq> set names"
    using assms(2) by (auto simp: glob_sync_def)
  have p1: "\<exists>f\<in>set names. files p = [f, ''sketch.js''] \<and> indexPath p \<noteq> None"
    if "p \<in> set projects1" for p
  proof -
    from markup_projects_shape[OF parts(2) that] obtain f where
      "f \<in> set (glob_sync fs dir)" "p = newProject dir (Some (Some f)) None None"
      "files p = [f, ''sketch.js'']" by blast
    with glob show ?thesis by (auto simp: newProject_def)
  qed
  have cands: "\<forall>c\<in>set (removeProjectFiles names projects1). c \<noteq> [] \<and> CHR ''/'' \<notin> set c"
    using assms(3) by (simp add: removeProjectFiles_set)
  have p2: "\<exists>f\<in>set names. files p = [f] \<and> indexPath p = None"
    if "p \<in> set projects2" for p
  proof -
    from script_projects_shape[OF parts(3)[unfolded n] that cands] obtain f where
      "f \<in> set (removeProjectFiles names projects1)"
      "p = newProject dir (Some None) (Some f) None" "files p = [f]" by blast
    then show ?thesis by (auto simp: removeProjectFiles_set newProject_def)
  qed
  have sub: "?U \<subseteq> set names \<union> (if \<exists>p\<in>set projects. indexPath p \<noteq> None then {''sketch.js''} else {})"
  proof
    fix x assume "x \<in> ?U"
    then obtain p where p: "p \<in> set projects" "x \<in> set (files p)" by blast
    from p(1) parts(4) consider "p \<in> set projects1" | "p \<in> set projects2" by auto
    then show "x \<in> set names \<union> (if \<exists>p\<in>set projects. indexPath p \<noteq> None then {''sketch.js''} else {})"
    proof cases
      case 1
      from p1[OF 1] obtain f where "f \<in> set names" "files p = [f, ''sketch.js'']" "indexPath p \<noteq> None"
        by blast
      with p show ?thesis by auto
    next
      case 2
      from p2[OF 2] obtain f where "f \<in> set names" "files p = [f]" by blast
      with p show ?thesis by auto
    qed
  qed
  have sk: "''sketch.js'' \<in> ?U" if "\<exists>p\<in>set projects. indexPath p \<noteq> None"
  proof -
    from that obtain p where p: "p \<in> set projects" "indexPath p \<noteq> None" by blast
    have "p \<notin> set projects2" using p2[of p] p(2) by auto
    with p(1) parts(4) have "p \<in> set projects1" by simp
    from p1[OF this] have "''sketch.js'' \<in> set (files p)" by auto
    with p(1) show ?thesis by blast
  qed
  have c1: "set residual \<inter> ?U = {}" using res by blast
  have c2: "set names \<subseteq> set residual \<union> ?U" using res by blast
  have c3: "set residual \<union> ?U =
      set names \<union> (if \<exists>p\<in>set projects. indexPath p \<noteq> None then {''sketch.js''} else {})"
  proof
    show "set residual \<union> ?U \<subseteq>
      set names \<union> (if \<exists>p\<in>set projects. indexPath p \<noteq> None then {''sketch.js''} else {})"
      using res sub by blast
    show "set names \<union> (if \<exists>p\<in>set projects. indexPath p \<noteq> None then {''sketch.js''} else {})
      \<subseteq> set residual \<union> ?U"
      using c2 sk by (auto split: if_splits)
  qed
  from c1 c2 c3 show ?thesis by blast
qed

text \<open>The directory with the markup, its script, a second sketch script and a note.\<close>

theorem findProjects_partition_witness:
  "findProjects exampleMarkupParser exampleScriptParser scriptsFs ''site'' =
     Inr ([''notes.txt''],
          [newProject ''site'' (Some (Some ''index.html'')) None None,
           newProject ''site'' (Some None) (Some ''main.js'') None]) \<and>
   set [''notes.txt''] \<inter>
     (\<Union>p\<in>set [newProject ''site'' (Some (Some ''index.html'')) None None,
           newProject ''site'' (Some None) (Some ''main.js'') None]. set (files p)) = {} \<and>
   set [''notes.txt''] \<union>
     (\<Union>p\<in>set [newProject ''site'' (Some (Some ''index.html'')) None None,
           newProject ''site'' (Some None) (Some ''main.js'') None]. set (files p)) =
     set [''index.html'', ''sketch.js'', ''main.js'', ''notes.txt'']"
proof -
  let ?ps = "[newProject ''site'' (Some (Some ''index.html'')) None None,
           newProject ''site'' (Some None) (Some ''main.js'') None]"
  have r: "findProjects exampleMarkupParser exampleScriptParser scriptsFs ''site'' =
     Inr ([''notes.txt''], ?ps)"
    by (simp add: scriptsFs_def scan_defs isSketchHtml_def isSketchJs_def parseOrReadJs_def
        fs_defs markup_defs src_def regex_defs project_defs script_defs programSetup_def)
  have d: "scriptsFs ''site'' = Some (Directory [''index.html'', ''sketch.js'', ''main.js'', ''notes.txt''])"
    by (simp add: scriptsFs_def)
  have v: "\<forall>n\<in>set [''index.html'', ''sketch.js'', ''main.js'', ''notes.txt'']. n \<noteq> [] \<and> CHR ''/'' \<notin> set n"
    by simp
  have i: "\<exists>p\<in>set ?ps. indexPath p \<noteq> None" by (simp add: newProject_def)
  note t = findProjects_partition[OF r d v]
  from t have c1: "set [''notes.txt''] \<inter> (\<Union>p\<in>set ?ps. set (files p)) = {}"
    by (rule conjunct1)
  from t have "set [''notes.txt''] \<union> (\<Union>p\<in>set ?ps. set (files p)) =
      set [''index.html'', ''sketch.js'', ''main.js'', ''notes.txt''] \<union>
      (if \<exists>p\<in>set ?ps. indexPath p \<noteq> None then {''sketch.js''} else {})"
    by (rule conjunct2[THEN conjunct2])
  also have "\<dots> = set [''index.html'', ''sketch.js'', ''main.js'', ''notes.txt''] \<union> {''sketch.js''}"
    using i by (simp only: if_True)
  also have "\<dots> = set [''index.html'', ''sketch.js'', ''main.js'', ''notes.txt'']"
    by auto
  finally have c3: "set [''notes.txt''] \<union> (\<Union>p\<in>set ?ps. set (files p)) =
      set [''index.html'', ''sketch.js'', ''main.js'', ''notes.txt'']" .
  from r c1 c3 show ?thesis by (intro conjI)
qed

text \<open>
  C2 as the specification words it fails: the directory holds \<open>index.html\<close> and
  \<open>notes.txt\<close>; the residual list and the files of the project together hold
  \<open>sketch.js\<close> as well, which the directory does not hold.
\<close>

theorem findProjects_lists_absent_script:
  "readdirSync exampleFs ''site'' = Inr [''index.html'', ''notes.txt''] \<and>
   findProjects exampleMarkupParser exampleScriptParser exampleFs ''site'' =
     Inr ([''notes.txt''], [newProject ''site'' (Some (Some ''index.html'')) None None]) \<and>
   set [''notes.txt''] \<union> set (files (newProject ''site'' (Some (Some ''index.html'')) None None))
     \<noteq> set [''index.html'', ''notes.txt'']"
proof -
  have a: "readdirSync exampleFs ''site'' = Inr [''index.html'', ''notes.txt'']"
    by (simp add: exampleFs_def readdirSync_def)
  have b: "findProjects exampleMarkupParser exampleScriptParser exampleFs ''site'' =
     Inr ([''notes.txt''], [newProject ''site'' (Some (Some ''index.html'')) None None])"
    by (simp add: exampleFs_def scan_defs isSketchHtml_def isSketchJs_def fs_defs markup_defs
        src_def regex_defs project_defs)
  have m: "''sketch.js'' \<in> set [''notes.txt''] \<union>
      set (files (newProject ''site'' (Some (Some ''index.html'')) None None))"
    by (simp add: project_defs)
  have n: "''sketch.js'' \<notin> set [''index.html'', ''notes.txt'']" by simp
  from m n have c: "set [''notes.txt''] \<union>
      set (files (newProject ''site'' (Some (Some ''index.html'')) None None))
     \<noteq> set [''index.html'', ''notes.txt'']"
    by metis
  from a b c show ?thesis by (intro conjI)
qed

text \<open>
  C8, as the source has it. The first loop enumerates every name of the directory that
  ends with \<open>.html\<close> in lower case, does not start with a dot and holds no separator;
  every name it enumerates is a name of the directory that ends with \<open>.htm\<close> or
  \<open>.html\<close>; when the loop ends without an error, every enumerated name was classified and
  the projects are those of the names classified true, in the order of the enumeration.
  Letter case is significant: nothing in the source matches the extension without regard
  to case.
\<close>

theorem findProjects_markup_candidates:
  assumes "fs dir = Some (Directory names)"
  shows "(\<forall>n\<in>set names. n \<noteq> [] \<and> hd n \<noteq> CHR ''.'' \<and> CHR ''/'' \<notin> set n \<and> endsWith n ''.html'' \<longrightarrow>
            n \<in> set (glob_sync fs dir)) \<and>
         (\<forall>n\<in>set (glob_sync fs dir). n \<in> set names \<and> (endsWith n ''.htm'' \<or> endsWith n ''.html'')) \<and>
         (\<forall>ps. htmlProjects q fs dir (glob_sync fs dir) = Inr ps \<longrightarrow>
            (\<forall>n\<in>set (glob_sync fs dir). \<exists>b. isSketchHtml q fs (path_join dir n) = Inr b) \<and>
            ps = map (\<lambda>n. newProject dir (Some (Some n)) None None)
                   (filter (\<lambda>n. isSketchHtml q fs (path_join dir n) = Inr True)
                      (glob_sync fs dir)))"
proof (intro conjI allI impI ballI)
  fix n
  assume "n \<in> set names"
    and "n \<noteq> [] \<and> hd n \<noteq> CHR ''.'' \<and> CHR ''/'' \<notin> set n \<and> endsWith n ''.html''"
  with assms show "n \<in> set (glob_sync fs dir)"
    by (simp add: glob_sync_def globMatch_def)
next
  fix n
  assume "n \<in> set (glob_sync fs dir)"
  with assms show "n \<in> set names" by (simp add: glob_sync_def)
next
  fix n
  assume "n \<in> set (glob_sync fs dir)"
  with assms show "endsWith n ''.htm'' \<or> endsWith n ''.html''"
    by (simp add: glob_sync_def globMatch_def)
next
  fix ps n
  assume "htmlProjects q fs dir (glob_sync fs dir) = Inr ps" and "n \<in> set (glob_sync fs dir)"
  with htmlProjects_result show "\<exists>b. isSketchHtml q fs (path_join dir n) = Inr b" by blast
next
  fix ps
  assume "htmlProjects q fs dir (glob_sync fs dir) = Inr ps"
  with htmlProjects_result show "ps = map (\<lambda>n. newProject dir (Some (Some n)) None None)
                   (filter (\<lambda>n. isSketchHtml q fs (path_join dir n) = Inr True)
                      (glob_sync fs dir))" by blast
qed

text \<open>In the directory with \<open>index.html\<close> and a note, \<open>index.html\<close> is enumerated.\<close>

theorem findProjects_markup_candidates_witness:
  "''index.html'' \<in> set (glob_sync exampleFs ''site'') \<and>
   (\<exists>b. isSketchHtml exampleMarkupParser exampleFs (path_join ''site'' ''index.html'') = Inr b) \<and>
   htmlProjects exampleMarkupParser exampleFs ''site'' (glob_sync exampleFs ''site'') =
     Inr [newProject ''site'' (Some (Some ''index.html'')) None None]"
proof -
  have d: "exampleFs ''site'' = Some (Directory [''index.html'', ''notes.txt''])"
    by (simp add: exampleFs_def)
  note t = findProjects_markup_candidates[where fs = exampleFs and dir = "''site''"
      and names = "[''index.html'', ''notes.txt'']" and q = exampleMarkupParser, OF d]
  have h: "''index.html'' \<in> set [''index.html'', ''notes.txt''] \<and> ''index.html'' \<noteq> [] \<and>
      hd ''index.html'' \<noteq> CHR ''.'' \<and> CHR ''/'' \<notin> set ''index.html'' \<and>
      endsWith ''index.html'' ''.html''"
    by (simp add: endsWith_def)
  from t h have a: "''index.html'' \<in> set (glob_sync exampleFs ''site'')" by blast
  have r: "htmlProjects exampleMarkupParser exampleFs ''site'' (glob_sync exampleFs ''site'') =
     Inr [newProject ''site'' (Some (Some ''index.html'')) None None]"
    by (simp add: exampleFs_def scan_defs isSketchHtml_def fs_defs markup_defs src_def regex_defs)
  from t r a have b: "\<exists>b. isSketchHtml exampleMarkupParser exampleFs (path_join ''site'' ''index.html'') = Inr b"
    by blast
  from a b r show ?thesis by (intro conjI)
qed

text \<open>
  C8 as the specification words it fails: \<open>INDEX.HTML\<close> has the extension \<open>.html\<close>
  without regard to case, and the enumeration of its directory is empty.
\<close>

theorem findProjects_upper_case_markup_skipped:
  "spec_markupCandidate ''INDEX.HTML'' \<and>
   readdirSync upperCaseFs ''site'' = Inr [''INDEX.HTML''] \<and>
   glob_sync upperCaseFs ''site'' = [] \<and>
   findProjects exampleMarkupParser exampleScriptParser upperCaseFs ''site'' =
     Inr ([''INDEX.HTML''], [])"
  by (simp add: spec_markupCandidate_def lowerCase_def upperCaseFs_def scan_defs isSketchHtml_def
      isSketchJs_def fs_defs markup_defs src_def regex_defs project_defs)

text \<open>
  The pattern of the enumeration names \<open>html\<close> twice and \<open>htm\<close> never: a markup
  file with the extension \<open>.htm\<close>, which \<open>isSketchHtml\<close> classifies as sketch markup,
  is not enumerated and gives no project.
\<close>

lemma htm_markup_not_enumerated:
  "isSketchHtml exampleMarkupParser htmFs (path_join ''site'' ''sketch.htm'') = Inr True \<and>
   glob_sync htmFs ''site'' = [] \<and>
   findProjects exampleMarkupParser exampleScriptParser htmFs ''site'' =
     Inr ([''sketch.htm''], [])"
  by (simp add: htmFs_def scan_defs isSketchHtml_def isSketchJs_def fs_defs markup_defs
      src_def regex_defs project_defs)

section \<open>Free variables: the theorems\<close>

text \<open>Two generators in a row end without an error when both do.\<close>

lemma andThen_Inr:
  "andThen a b = Inr zs \<longleftrightarrow> (\<exists>xs ys. a = Inr xs \<and> b = Inr ys \<and> zs = xs @ ys)"
  by (auto simp: andThen_def split: sum.splits)

text \<open>
  When \<open>iterPatternNames\<close> ends without an error, the names it yields are the bound
  names of the pattern.
\<close>

lemma iterPatternNames_boundNames:
  "iterPatternNames p = Inr ns \<Longrightarrow> set ns = boundNames p"
  "iterPatternNames_properties props = Inr ns' \<Longrightarrow> set ns' = boundNames_properties props"
  "iterPatternNames_elements elems = Inr ns'' \<Longrightarrow> set ns'' = boundNames_elements elems"
proof (induction p and props and elems arbitrary: ns and ns' and ns''
    rule: iterPatternNames_iterPatternNames_properties_iterPatternNames_elements.induct)
  case (8 v props)
  then show ?case by (auto simp: andThen_Inr)
next
  case (9 a props)
  then show ?case by (auto simp: andThen_Inr)
next
  case (12 p elems)
  then show ?case by (auto simp: andThen_Inr)
qed auto

lemma paramNames_boundNames:
  "paramNames params = Inr ns \<Longrightarrow> set ns = (\<Union>p\<in>set params. boundNames p)"
proof (induction params arbitrary: ns)
  case Nil
  then show ?case by simp
next
  case (Cons p params)
  then show ?case by (auto simp: andThen_Inr iterPatternNames_boundNames(1))
qed

lemma iterDeclaredNames_directNames:
  "iterDeclaredNames s = Inr ns \<Longrightarrow> set ns = directNames s"
proof (induction s rule: iterDeclaredNames.induct)
  case (1 fid params body)
  then show ?case by (cases fid) auto
next
  case (3 p i decls)
  then show ?case by (simp add: iterPatternNames_boundNames(1))
qed auto

lemma declaredNames_directNames:
  "declaredNames body = Inr ns \<Longrightarrow> set ns = (\<Union>s\<in>set body. directNames s)"
proof (induction body arbitrary: ns)
  case Nil
  then show ?case by simp
next
  case (Cons s body)
  then show ?case by (auto simp: andThen_Inr iterDeclaredNames_directNames)
qed

lemma locals_set:
  assumes "locals fid params body = Inr ls"
  shows "set ls = (case fid of None \<Rightarrow> {} | Some n \<Rightarrow> {n}) \<union>
           (\<Union>p\<in>set params. boundNames p) \<union> (\<Union>s\<in>set body. directNames s)"
proof -
  from assms obtain ps ds where p: "paramNames params = Inr ps"
    and d: "declaredNames body = Inr ds"
    and l: "ls = (case fid of None \<Rightarrow> [] | Some n \<Rightarrow> [n]) @ ps @ ds"
    unfolding locals_def andThen_Inr by auto
  from l have "set ls = set (case fid of None \<Rightarrow> [] | Some n \<Rightarrow> [n]) \<union> set ps \<union> set ds"
    by auto
  moreover have "set (case fid of None \<Rightarrow> [] | Some n \<Rightarrow> [n]) = (case fid of None \<Rightarrow> {} | Some n \<Rightarrow> {n})"
    by (cases fid) simp_all
  ultimately show ?thesis
    using paramNames_boundNames[OF p] declaredNames_directNames[OF d] by simp
qed

lemma directNames_subset: "directNames s \<subseteq> directDeclarationNames s"
proof (cases s)
  case (VariableDeclaration decls)
  then show ?thesis
  proof (cases decls)
    case Nil
    with VariableDeclaration show ?thesis by simp
  next
    case (Cons d ds)
    with VariableDeclaration show ?thesis by (cases d) simp
  qed
qed simp_all

text \<open>
  C3, as the source has it. When the walk of a function declaration ends without an
  error, the set \<open>locals\<close>, built before the body is walked, holds the name of the
  function, every name bound by a parameter, and for every statement that stands directly
  in the body the name of a function declaration and the names bound by the first
  declarator of a variable declaration. It holds no name but these and the names bound by
  the other declarators of the variable declarations that stand directly in the body: a
  name that is declared only inside a block, a loop or a conditional is not in
  \<open>locals\<close>. The names yielded for the function are the names that the walk of the body
  yields, in order, without those of \<open>locals\<close>: no name of \<open>locals\<close> is yielded,
  wherever in the body it is used, and none is a free variable of the program made of that
  function alone.
\<close>

theorem function_locals_never_free:
  assumes "iterStatement (FunctionDeclaration fid params body) = Inr names"
  shows "\<exists>ls. locals fid params body = Inr ls \<and>
           (case fid of None \<Rightarrow> {} | Some n \<Rightarrow> {n}) \<subseteq> set ls \<and>
           (\<forall>p\<in>set params. boundNames p \<subseteq> set ls) \<and>
           (\<forall>s\<in>set body. directNames s \<subseteq> set ls) \<and>
           set ls \<subseteq> (case fid of None \<Rightarrow> {} | Some n \<Rightarrow> {n}) \<union>
             (\<Union>p\<in>set params. boundNames p) \<union>
             (\<Union>s\<in>set body. directDeclarationNames s) \<and>
           (\<exists>walked. iterStatement_body body = Inr walked \<and>
              names = filter (\<lambda>n. n \<notin> set ls) walked) \<and>
           set ls \<inter> set names = {} \<and>
           (\<forall>free. findFreeVariables [FunctionDeclaration fid params body] = Inr free \<longrightarrow>
              set ls \<inter> free = {})"
proof -
  from assms obtain ls walked where l: "locals fid params body = Inr ls"
    and w: "iterStatement_body body = Inr walked"
    and n: "names = filter (\<lambda>n. n \<notin> set ls) walked"
    by (auto split: sum.splits)
  note s = locals_set[OF l]
  have disj: "set ls \<inter> set names = {}" using n by auto
  have free: "set ls \<inter> free = {}"
    if "findFreeVariables [FunctionDeclaration fid params body] = Inr free" for free
  proof -
    from that assms have "free \<subseteq> set names"
      by (auto simp: findFreeVariables_def andThen_def)
    with disj show ?thesis by blast
  qed
  from s have lower: "(case fid of None \<Rightarrow> {} | Some n \<Rightarrow> {n}) \<subseteq> set ls"
    "\<forall>p\<in>set params. boundNames p \<subseteq> set ls" "\<forall>s\<in>set body. directNames s \<subseteq> set ls"
    by auto
  have "(\<Union>s\<in>set body. directNames s) \<subseteq> (\<Union>s\<in>set body. directDeclarationNames s)"
    using directNames_subset by blast
  with s have upper: "set ls \<subseteq> (case fid of None \<Rightarrow> {} | Some n \<Rightarrow> {n}) \<union>
      (\<Union>p\<in>set params. boundNames p) \<union> (\<Union>s\<in>set body. directDeclarationNames s)"
    by blast
  from w n have walk: "\<exists>walked. iterStatement_body body = Inr walked \<and>
      names = filter (\<lambda>n. n \<notin> set ls) walked" by blast
  from l lower upper walk disj free show ?thesis by blast
qed

text \<open>
  A function that uses \<open>x\<close> before its declaration and calls the function \<open>g\<close> that
  its body declares: only \<open>y\<close> is free. A function that declares \<open>x\<close> in the block of
  a conditional: \<open>x\<close> is not in \<open>locals\<close>.
\<close>

theorem function_locals_never_free_witness:
  "exampleScriptParser scriptHoisted = Inr programHoisted \<and>
   iterStatement (FunctionDeclaration (Some ''f'') [PatternIdentifier ''a''] bodyHoisted) =
     Inr [''y''] \<and>
   locals (Some ''f'') [PatternIdentifier ''a''] bodyHoisted = Inr [''f'', ''a'', ''x'', ''g''] \<and>
   set [''f'', ''a'', ''x'', ''g''] \<inter> set [''y''] = {} \<and>
   findFreeVariables programHoisted = Inr {''y''} \<and>
   iterStatement (FunctionDeclaration (Some ''f'') [] bodyNested) = Inr [''c'', ''x''] \<and>
   (\<exists>ls. locals (Some ''f'') [] bodyNested = Inr ls \<and> ''x'' \<notin> set ls)"
proof -
  have p: "exampleScriptParser scriptHoisted = Inr programHoisted"
    by (simp add: script_defs)
  have r: "iterStatement (FunctionDeclaration (Some ''f'') [PatternIdentifier ''a''] bodyHoisted) =
     Inr [''y'']"
    by (simp add: bodyHoisted_def locals_def andThen_def iterExpression_option_def)
  have l: "locals (Some ''f'') [PatternIdentifier ''a''] bodyHoisted = Inr [''f'', ''a'', ''x'', ''g'']"
    by (simp add: bodyHoisted_def locals_def andThen_def)
  have f: "findFreeVariables programHoisted = Inr {''y''}"
    using r by (simp add: programHoisted_def findFreeVariables_def andThen_def)
  from function_locals_never_free[OF r] l
  have d: "set [''f'', ''a'', ''x'', ''g''] \<inter> set [''y''] = {}" by auto
  have r': "iterStatement (FunctionDeclaration (Some ''f'') [] bodyNested) = Inr [''c'', ''x'']"
    by (simp add: bodyNested_def locals_def andThen_def iterExpression_option_def)
  from function_locals_never_free[OF r'] obtain ls where
    ls: "locals (Some ''f'') [] bodyNested = Inr ls"
    and up: "set ls \<subseteq> (case Some ''f'' of None \<Rightarrow> {} | Some n \<Rightarrow> {n}) \<union>
      (\<Union>p\<in>set []. boundNames p) \<union> (\<Union>s\<in>set bodyNested. directDeclarationNames s)"
    by blast
  have "(case Some ''f'' of None \<Rightarrow> {} | Some n \<Rightarrow> {n}) \<union>
      (\<Union>p\<in>set []. boundNames p) \<union> (\<Union>s\<in>set bodyNested. directDeclarationNames s) = {''f''}"
    by (simp add: bodyNested_def)
  with up have "''x'' \<notin> set ls" by auto
  with ls have n: "\<exists>ls. locals (Some ''f'') [] bodyNested = Inr ls \<and> ''x'' \<notin> set ls" by blast
  from p r l d f r' n show ?thesis by (intro conjI)
qed

text \<open>
  C3 as the specification words it fails: \<open>x\<close> is declared in a block of the body
  of \<open>f\<close>, is not in \<open>locals\<close> and is reported free.
\<close>

theorem nested_declaration_reported_free:
  "exampleScriptParser scriptNested = Inr programNested \<and>
   ''x'' \<in> spec_declaredNames_body bodyNested \<and>
   locals (Some ''f'') [] bodyNested = Inr [''f''] \<and>
   iterStatement (FunctionDeclaration (Some ''f'') [] bodyNested) = Inr [''c'', ''x''] \<and>
   findFreeVariables programNested = Inr {''c'', ''x''}"
  by (simp add: script_defs programNested_def bodyNested_def locals_def andThen_def
      iterExpression_option_def findFreeVariables_def)

text \<open>
  The loop of \<open>iterDeclaredNames\<close> over the declarators ends after the first: the
  second name of \<open>var a = 1, b = 2\<close> is not in \<open>locals\<close> and is reported free.
\<close>

lemma second_declarator_reported_free:
  "exampleScriptParser scriptTwoDeclarators = Inr programTwoDeclarators \<and>
   locals (Some ''f'') [] bodyTwoDeclarators = Inr [''f'', ''a''] \<and>
   findFreeVariables programTwoDeclarators = Inr {''b''}"
  by (simp add: script_defs programTwoDeclarators_def bodyTwoDeclarators_def locals_def
      andThen_def iterExpression_option_def findFreeVariables_def)

section \<open>Title resolution: the theorems\<close>

text \<open>An occurrence of a literal that is not empty lies within the text.\<close>

lemma occursAt_bound:
  assumes "occursAt t s k" and "t \<noteq> []"
  shows "k + length t \<le> length s"
proof -
  from assms(1) have "take (length t) (drop k s) = t" by (simp add: occursAt_def startsWith_def)
  then have "length (take (length t) (drop k s)) = length t" by simp
  then have "min (length s - k) (length t) = length t" by simp
  moreover have "0 < length t" using assms(2) by simp
  ultimately show ?thesis by arith
qed

lemma occursAt_drop: "occursAt t (drop a s) m = occursAt t s (a + m)"
  by (simp add: occursAt_def add.commute)

text \<open>
  The group after an opening tag ends at the last closing tag within the extents
  tried.
\<close>

lemma captureTitle_Some:
  "captureTitle r k = Some c \<longleftrightarrow>
     (\<exists>m. 0 < m \<and> m \<le> k \<and> occursAt ''</title>'' r m \<and> c = take m r \<and>
        (\<forall>m'. m < m' \<and> m' \<le> k \<longrightarrow> \<not> occursAt ''</title>'' r m'))"
proof (induction k)
  case 0
  then show ?case by simp
next
  case (Suc k)
  show ?case
  proof (cases "occursAt ''</title>'' r (Suc k)")
    case True
    have "(\<exists>m. 0 < m \<and> m \<le> Suc k \<and> occursAt ''</title>'' r m \<and> c = take m r \<and>
        (\<forall>m'. m < m' \<and> m' \<le> Suc k \<longrightarrow> \<not> occursAt ''</title>'' r m')) \<longleftrightarrow> c = take (Suc k) r"
      (is "?R \<longleftrightarrow> _")
    proof
      assume ?R
      then obtain m where m: "m \<le> Suc k" "c = take m r"
        "\<forall>m'. m < m' \<and> m' \<le> Suc k \<longrightarrow> \<not> occursAt ''</title>'' r m'" by blast
      with True have "m = Suc k" by (metis le_neq_implies_less order_refl)
      with m show "c = take (Suc k) r" by simp
    next
      assume "c = take (Suc k) r"
      with True have "0 < Suc k \<and> Suc k \<le> Suc k \<and> occursAt ''</title>'' r (Suc k) \<and> c = take (Suc k) r \<and>
        (\<forall>m'. Suc k < m' \<and> m' \<le> Suc k \<longrightarrow> \<not> occursAt ''</title>'' r m')" by auto
      then show ?R by blast
    qed
    with True show ?thesis by (auto simp: occursAt_def)
  next
    case False
    have "(\<exists>m. 0 < m \<and> m \<le> Suc k \<and> occursAt ''</title>'' r m \<and> c = take m r \<and>
        (\<forall>m'. m < m' \<and> m' \<le> Suc k \<longrightarrow> \<not> occursAt ''</title>'' r m')) \<longleftrightarrow>
          (\<exists>m. 0 < m \<and> m \<le> k \<and> occursAt ''</title>'' r m \<and> c = take m r \<and>
        (\<forall>m'. m < m' \<and> m' \<le> k \<longrightarrow> \<not> occursAt ''</title>'' r m'))"
      (is "?R \<longleftrightarrow> ?R'")
    proof
      assume ?R
      then obtain m where m: "0 < m" "m \<le> Suc k" "occursAt ''</title>'' r m" "c = take m r"
        "\<forall>m'. m < m' \<and> m' \<le> Suc k \<longrightarrow> \<not> occursAt ''</title>'' r m'" by blast
      with False have "m \<noteq> Suc k" by auto
      with m(2) have "m \<le> k" by simp
      with m show ?R' by auto
    next
      assume ?R'
      then obtain m where m: "0 < m" "m \<le> k" "occursAt ''</title>'' r m" "c = take m r"
        "\<forall>m'. m < m' \<and> m' \<le> k \<longrightarrow> \<not> occursAt ''</title>'' r m'" by blast
      have "\<forall>m'. m < m' \<and> m' \<le> Suc k \<longrightarrow> \<not> occursAt ''</title>'' r m'"
        using m(5) False by (metis le_SucE)
      moreover have "m \<le> Suc k" using m(2) by simp
      ultimately have "0 < m \<and> m \<le> Suc k \<and> occursAt ''</title>'' r m \<and> c = take m r \<and>
        (\<forall>m'. m < m' \<and> m' \<le> Suc k \<longrightarrow> \<not> occursAt ''</title>'' r m')"
        using m(1,3,4) by simp
      then show ?R by blast
    qed
    with False Suc show ?thesis by (simp add: occursAt_def)
  qed
qed

lemma captureTitle_None:
  "captureTitle r k = None \<longleftrightarrow> (\<forall>m. 0 < m \<and> m \<le> k \<longrightarrow> \<not> occursAt ''</title>'' r m)"
proof (induction k)
  case 0
  then show ?case by simp
next
  case (Suc k)
  show ?case
  proof (cases "occursAt ''</title>'' r (Suc k)")
    case True
    then show ?thesis by (auto simp: occursAt_def)
  next
    case False
    have "(\<forall>m. 0 < m \<and> m \<le> Suc k \<longrightarrow> \<not> occursAt ''</title>'' r m) \<longleftrightarrow>
          (\<forall>m. 0 < m \<and> m \<le> k \<longrightarrow> \<not> occursAt ''</title>'' r m)"
      using False by (metis le_SucE le_SucI)
    with False Suc show ?thesis by (simp add: occursAt_def)
  qed
qed

lemma tryTitleAt_unfold:
  "tryTitleAt s i =
     (if occursAt ''<title>'' s i then captureTitle (drop (i + 7) s) (length s - (i + 7)) else None)"
  by (simp add: tryTitleAt_def occursAt_def Let_def add.commute)

lemma tryTitleAt_Some:
  "tryTitleAt s i = Some c \<longleftrightarrow>
     occursAt ''<title>'' s i \<and>
     (\<exists>j. i + 7 < j \<and> occursAt ''</title>'' s j \<and> c = take (j - (i + 7)) (drop (i + 7) s) \<and>
        (\<forall>j'. j < j' \<longrightarrow> \<not> occursAt ''</title>'' s j'))"
  (is "?L \<longleftrightarrow> ?O \<and> ?R")
proof
  assume l: ?L
  then have o: ?O unfolding tryTitleAt_unfold by (simp split: if_splits)
  with l have "captureTitle (drop (i + 7) s) (length s - (i + 7)) = Some c"
    unfolding tryTitleAt_unfold by simp
  then obtain m where m: "0 < m" "m \<le> length s - (i + 7)"
    "occursAt ''</title>'' (drop (i + 7) s) m" "c = take m (drop (i + 7) s)"
    "\<forall>m'. m < m' \<and> m' \<le> length s - (i + 7) \<longrightarrow> \<not> occursAt ''</title>'' (drop (i + 7) s) m'"
    unfolding captureTitle_Some by blast
  let ?j = "i + 7 + m"
  have a: "i + 7 < ?j" using m(1) by simp
  have b: "occursAt ''</title>'' s ?j" using m(3) by (simp add: occursAt_drop)
  have c: "c = take (?j - (i + 7)) (drop (i + 7) s)" using m(4) by simp
  have d: "\<not> occursAt ''</title>'' s j'" if "?j < j'" for j'
  proof
    assume oc: "occursAt ''</title>'' s j'"
    then have "j' + 8 \<le> length s" using occursAt_bound[of "''</title>''" s j'] by simp
    with that have "m < j' - (i + 7) \<and> j' - (i + 7) \<le> length s - (i + 7)" by arith
    with m(5) have "\<not> occursAt ''</title>'' (drop (i + 7) s) (j' - (i + 7))" by blast
    moreover have "i + 7 + (j' - (i + 7)) = j'" using that by arith
    ultimately show False using oc by (simp add: occursAt_drop)
  qed
  from a b c d have ?R by blast
  with o show "?O \<and> ?R" by blast
next
  assume r: "?O \<and> ?R"
  then obtain j where j: "i + 7 < j" "occursAt ''</title>'' s j"
    "c = take (j - (i + 7)) (drop (i + 7) s)" "\<forall>j'. j < j' \<longrightarrow> \<not> occursAt ''</title>'' s j'"
    by blast
  let ?m = "j - (i + 7)"
  have e: "i + 7 + ?m = j" using j(1) by arith
  have "j + 8 \<le> length s" using occursAt_bound[OF j(2)] by simp
  then have a: "0 < ?m \<and> ?m \<le> length s - (i + 7)" using j(1) by arith
  have b: "occursAt ''</title>'' (drop (i + 7) s) ?m" using j(2) e by (simp add: occursAt_drop)
  have d: "\<forall>m'. ?m < m' \<and> m' \<le> length s - (i + 7) \<longrightarrow> \<not> occursAt ''</title>'' (drop (i + 7) s) m'"
  proof (intro allI impI)
    fix m' assume "?m < m' \<and> m' \<le> length s - (i + 7)"
    then have "j < i + 7 + m'" using j(1) by arith
    with j(4) show "\<not> occursAt ''</title>'' (drop (i + 7) s) m'" by (simp add: occursAt_drop)
  qed
  from a b j(3) d have "captureTitle (drop (i + 7) s) (length s - (i + 7)) = Some c"
    unfolding captureTitle_Some by blast
  with r show ?L unfolding tryTitleAt_unfold by simp
qed

lemma tryTitleAt_None:
  "tryTitleAt s i = None \<longleftrightarrow>
     \<not> occursAt ''<title>'' s i \<or> (\<forall>j. i + 7 < j \<longrightarrow> \<not> occursAt ''</title>'' s j)"
proof (cases "occursAt ''<title>'' s i")
  case False
  then show ?thesis unfolding tryTitleAt_unfold by simp
next
  case True
  have "(\<forall>m. 0 < m \<and> m \<le> length s - (i + 7) \<longrightarrow> \<not> occursAt ''</title>'' (drop (i + 7) s) m) \<longleftrightarrow>
        (\<forall>j. i + 7 < j \<longrightarrow> \<not> occursAt ''</title>'' s j)" (is "?A \<longleftrightarrow> ?B")
  proof
    assume a: ?A
    show ?B
    proof (intro allI impI notI)
      fix j assume j: "i + 7 < j" and oc: "occursAt ''</title>'' s j"
      from oc have "j + 8 \<le> length s" using occursAt_bound[of "''</title>''" s j] by simp
      with j have "0 < j - (i + 7) \<and> j - (i + 7) \<le> length s - (i + 7)" by arith
      with a have "\<not> occursAt ''</title>'' (drop (i + 7) s) (j - (i + 7))" by blast
      moreover have "i + 7 + (j - (i + 7)) = j" using j by arith
      ultimately show False using oc by (simp add: occursAt_drop)
    qed
  next
    assume b: ?B
    show ?A
    proof (intro allI impI)
      fix m assume "0 < m \<and> m \<le> length s - (i + 7)"
      then have "i + 7 < i + 7 + m" by simp
      with b show "\<not> occursAt ''</title>'' (drop (i + 7) s) m" by (simp add: occursAt_drop)
    qed
  qed
  moreover have "tryTitleAt s i = captureTitle (drop (i + 7) s) (length s - (i + 7))"
    using True by (simp add: tryTitleAt_unfold)
  ultimately show ?thesis using True by (simp only: captureTitle_None simp_thms)
qed

lemma matchTitleFrom_Some:
  "matchTitleFrom s k = Some c \<longleftrightarrow>
     (\<exists>i. i \<le> k \<and> tryTitleAt s i = Some c \<and>
        (\<forall>i'. i < i' \<and> i' \<le> k \<longrightarrow> tryTitleAt s i' = None))"
proof (induction k)
  case 0
  then show ?case by simp
next
  case (Suc k)
  show ?case
  proof (cases "tryTitleAt s (Suc k)")
    case (Some c')
    have "(\<exists>i. i \<le> Suc k \<and> tryTitleAt s i = Some c \<and>
        (\<forall>i'. i < i' \<and> i' \<le> Suc k \<longrightarrow> tryTitleAt s i' = None)) \<longleftrightarrow> c' = c" (is "?R \<longleftrightarrow> _")
    proof
      assume ?R
      then obtain i where i: "i \<le> Suc k" "tryTitleAt s i = Some c"
        "\<forall>i'. i < i' \<and> i' \<le> Suc k \<longrightarrow> tryTitleAt s i' = None" by blast
      have "i = Suc k"
      proof (rule ccontr)
        assume "i \<noteq> Suc k"
        with i(1) have "i < Suc k \<and> Suc k \<le> Suc k" by simp
        with i(3) have "tryTitleAt s (Suc k) = None" by blast
        with Some show False by simp
      qed
      with i(2) Some show "c' = c" by simp
    next
      assume "c' = c"
      with Some have "Suc k \<le> Suc k \<and> tryTitleAt s (Suc k) = Some c \<and>
        (\<forall>i'. Suc k < i' \<and> i' \<le> Suc k \<longrightarrow> tryTitleAt s i' = None)" by auto
      then show ?R by blast
    qed
    with Some show ?thesis by simp
  next
    case None
    have "(\<exists>i. i \<le> Suc k \<and> tryTitleAt s i = Some c \<and>
        (\<forall>i'. i < i' \<and> i' \<le> Suc k \<longrightarrow> tryTitleAt s i' = None)) \<longleftrightarrow>
          (\<exists>i. i \<le> k \<and> tryTitleAt s i = Some c \<and>
        (\<forall>i'. i < i' \<and> i' \<le> k \<longrightarrow> tryTitleAt s i' = None))" (is "?R \<longleftrightarrow> ?R'")
    proof
      assume ?R
      then obtain i where i: "i \<le> Suc k" "tryTitleAt s i = Some c"
        "\<forall>i'. i < i' \<and> i' \<le> Suc k \<longrightarrow> tryTitleAt s i' = None" by blast
      with None have "i \<noteq> Suc k" by auto
      with i(1) have "i \<le> k" by simp
      moreover have "\<forall>i'. i < i' \<and> i' \<le> k \<longrightarrow> tryTitleAt s i' = None" using i(3) by simp
      ultimately have "i \<le> k \<and> tryTitleAt s i = Some c \<and>
        (\<forall>i'. i < i' \<and> i' \<le> k \<longrightarrow> tryTitleAt s i' = None)" using i(2) by simp
      then show ?R' by blast
    next
      assume ?R'
      then obtain i where i: "i \<le> k" "tryTitleAt s i = Some c"
        "\<forall>i'. i < i' \<and> i' \<le> k \<longrightarrow> tryTitleAt s i' = None" by blast
      have "\<forall>i'. i < i' \<and> i' \<le> Suc k \<longrightarrow> tryTitleAt s i' = None"
        using i(3) None by (metis le_SucE)
      moreover have "i \<le> Suc k" using i(1) by simp
      ultimately have "i \<le> Suc k \<and> tryTitleAt s i = Some c \<and>
        (\<forall>i'. i < i' \<and> i' \<le> Suc k \<longrightarrow> tryTitleAt s i' = None)" using i(2) by simp
      then show ?R by blast
    qed
    with None Suc show ?thesis by simp
  qed
qed

text \<open>The backtracking match and the description of its group in words agree.\<close>

lemma matchTitle_lastTitle: "matchTitle s = Some c \<longleftrightarrow> lastTitle s c"
proof
  assume "matchTitle s = Some c"
  then obtain i where i: "i \<le> length s" "tryTitleAt s i = Some c"
    "\<forall>i'. i < i' \<and> i' \<le> length s \<longrightarrow> tryTitleAt s i' = None"
    unfolding matchTitle_def matchTitleFrom_Some by blast
  from i(2) obtain j where j: "occursAt ''<title>'' s i" "i + 7 < j" "occursAt ''</title>'' s j"
    "c = take (j - (i + 7)) (drop (i + 7) s)" "\<forall>j'. j < j' \<longrightarrow> \<not> occursAt ''</title>'' s j'"
    unfolding tryTitleAt_Some by blast
  have "\<forall>i'. i < i' \<and> occursAt ''<title>'' s i' \<longrightarrow> j \<le> i' + 7"
  proof (intro allI impI)
    fix i' assume h: "i < i' \<and> occursAt ''<title>'' s i'"
    then have "i' \<le> length s" using occursAt_bound[of "''<title>''" s i'] by simp
    with h i(3) have "tryTitleAt s i' = None" by blast
    with h have "\<forall>j. i' + 7 < j \<longrightarrow> \<not> occursAt ''</title>'' s j"
      unfolding tryTitleAt_None by blast
    with j(3) show "j \<le> i' + 7" by (meson not_le)
  qed
  with j show "lastTitle s c" unfolding lastTitle_def by blast
next
  assume "lastTitle s c"
  then obtain i j where j: "occursAt ''<title>'' s i" "occursAt ''</title>'' s j" "i + 7 < j"
    "c = take (j - (i + 7)) (drop (i + 7) s)" "\<forall>j'. j < j' \<longrightarrow> \<not> occursAt ''</title>'' s j'"
    "\<forall>i'. i < i' \<and> occursAt ''<title>'' s i' \<longrightarrow> j \<le> i' + 7"
    unfolding lastTitle_def by blast
  have a: "tryTitleAt s i = Some c" unfolding tryTitleAt_Some using j(1-5) by blast
  have b: "i \<le> length s" using occursAt_bound[OF j(1)] by simp
  have c: "\<forall>i'. i < i' \<and> i' \<le> length s \<longrightarrow> tryTitleAt s i' = None"
  proof (intro allI impI)
    fix i' assume h: "i < i' \<and> i' \<le> length s"
    show "tryTitleAt s i' = None"
    proof (cases "occursAt ''<title>'' s i'")
      case False
      then show ?thesis unfolding tryTitleAt_None by simp
    next
      case True
      with h j(6) have "j \<le> i' + 7" by blast
      then have "\<forall>j'. i' + 7 < j' \<longrightarrow> \<not> occursAt ''</title>'' s j'" using j(5) by simp
      then show ?thesis unfolding tryTitleAt_None by simp
    qed
  qed
  from a b c show "matchTitle s = Some c"
    unfolding matchTitle_def matchTitleFrom_Some by blast
qed

text \<open>
  The three extensions end with different letters, so a text has at most one cut before
  an extension.
\<close>

lemma extension_unique:
  assumes "a @ e = a' @ e'"
    and "e \<in> {''.html'', ''.htm'', ''.js''}" and "e' \<in> {''.html'', ''.htm'', ''.js''}"
  shows "a = a'"
proof -
  from assms(2,3) have ne: "e \<noteq> []" "e' \<noteq> []" by auto
  from assms(1) have "last (a @ e) = last (a' @ e')" by simp
  with ne have "last e = last e'" by simp
  with assms(2,3) have "e = e'" by auto
  with assms(1) show ?thesis by simp
qed

lemma removeExtension_suffix:
  assumes "e \<in> {''.html'', ''.htm'', ''.js''}"
  shows "removeExtension (a @ e) = a"
proof -
  have me: "matchExtension prev e" for prev using assms by (auto simp: matchExtension_def)
  then have "a @ e = a @ e \<and> matchExtension (if a = [] then None else Some (last a)) e" by simp
  then have nn: "0 \<le> search matchExtension (a @ e)"
    unfolding search_nonneg_iff by blast
  then obtain a' b' where c: "a @ e = a' @ b'"
    "matchExtension (if a' = [] then None else Some (last a')) b'"
    "search matchExtension (a @ e) = int (length a')"
    using searchFrom_cut[of 0 matchExtension None "a @ e"] unfolding search_def by auto
  from c(2) have "b' \<in> {''.html'', ''.htm'', ''.js''}" by (auto simp: matchExtension_def)
  with c(1) assms have "a = a'" by (rule extension_unique)
  with c(3) show ?thesis by (simp add: removeExtension_def)
qed

lemma removeExtension_other:
  assumes "\<forall>a e. e \<in> {''.html'', ''.htm'', ''.js''} \<longrightarrow> s \<noteq> a @ e"
  shows "removeExtension s = s"
proof -
  have "\<not> 0 \<le> search matchExtension s"
  proof
    assume "0 \<le> search matchExtension s"
    then obtain a b where "s = a @ b" "matchExtension (if a = [] then None else Some (last a)) b"
      unfolding search_nonneg_iff by blast
    then have "s = a @ b \<and> b \<in> {''.html'', ''.htm'', ''.js''}" by (auto simp: matchExtension_def)
    with assms show False by blast
  qed
  then show ?thesis by (simp add: removeExtension_def)
qed

text \<open>
  C7, as the source has it. The name of a project is its explicit title when that is
  set and not empty. Otherwise, when the project has a markup file, the file exists and its
  text matches the pattern, the name is the trimmed group of the match: the text, not
  empty, from after the last opening tag \<open><title>\<close> that has a character and then a
  closing tag after it, up to the last closing tag \<open></title>\<close> of the text. Otherwise
  (no markup file, no file at its path, or no match) the name is the root file with a
  final \<open>.html\<close>, \<open>.htm\<close> or \<open>.js\<close> removed, and unchanged when it ends with none of
  them.
\<close>

theorem name_resolution:
  "(truthy (title p) \<longrightarrow> name fs p = Inr (the (title p))) \<and>
   (\<not> truthy (title p) \<and> truthy (indexPath p) \<and>
      fs (path_join (dirPath p) (the (indexPath p))) = Some (File content) \<and>
      lastTitle content c \<longrightarrow>
        name fs p = Inr (trim c)) \<and>
   (\<not> truthy (title p) \<and> truthy (indexPath p) \<and>
      fs (path_join (dirPath p) (the (indexPath p))) = Some (File content) \<and>
      (\<forall>c. \<not> lastTitle content c) \<longrightarrow>
        name fs p = Inr (removeExtension (rootFile p))) \<and>
   (\<not> truthy (title p) \<and>
      (\<not> truthy (indexPath p) \<or> fs (path_join (dirPath p) (the (indexPath p))) = None) \<longrightarrow>
        name fs p = Inr (removeExtension (rootFile p))) \<and>
   (\<forall>a e. e \<in> {''.html'', ''.htm'', ''.js''} \<longrightarrow> removeExtension (a @ e) = a) \<and>
   (\<forall>s. (\<forall>a e. e \<in> {''.html'', ''.htm'', ''.js''} \<longrightarrow> s \<noteq> a @ e) \<longrightarrow> removeExtension s = s)"
proof (intro conjI impI allI)
  assume "truthy (title p)"
  then show "name fs p = Inr (the (title p))" by (simp add: name_def)
next
  assume h: "\<not> truthy (title p) \<and> truthy (indexPath p) \<and>
      fs (path_join (dirPath p) (the (indexPath p))) = Some (File content) \<and>
      lastTitle content c"
  then have "matchTitle content = Some c" by (simp add: matchTitle_lastTitle)
  with h show "name fs p = Inr (trim c)"
    by (simp add: name_def existsSync_def readFileSync_def)
next
  assume h: "\<not> truthy (title p) \<and> truthy (indexPath p) \<and>
      fs (path_join (dirPath p) (the (indexPath p))) = Some (File content) \<and>
      (\<forall>c. \<not> lastTitle content c)"
  then have "matchTitle content = None"
    using matchTitle_lastTitle[of content] by (cases "matchTitle content") auto
  with h show "name fs p = Inr (removeExtension (rootFile p))"
    by (simp add: name_def existsSync_def readFileSync_def)
next
  assume "\<not> truthy (title p) \<and>
      (\<not> truthy (indexPath p) \<or> fs (path_join (dirPath p) (the (indexPath p))) = None)"
  then show "name fs p = Inr (removeExtension (rootFile p))"
    by (auto simp: name_def existsSync_def)
next
  fix a e :: string
  assume "e \<in> {''.html'', ''.htm'', ''.js''}"
  then show "removeExtension (a @ e) = a" by (rule removeExtension_suffix)
next
  fix s :: string
  assume "\<forall>a e. e \<in> {''.html'', ''.htm'', ''.js''} \<longrightarrow> s \<noteq> a @ e"
  then show "removeExtension s = s" by (rule removeExtension_other)
qed

text \<open>The match on the text with two title elements.\<close>

lemma matchTitle_two: "matchTitle markupTwoTitles = Some ''B''"
  by (simp add: markupTwoTitles_def matchTitle_def tryTitleAt_def startsWith_def)

text \<open>
  The text with two title elements, a project with a script only, and a project with
  an explicit title.
\<close>

theorem name_resolution_witness:
  "name titleFs (newProject ''site'' (Some (Some ''index.html'')) None None) = Inr ''B'' \<and>
   name titleFs (newProject ''site'' (Some None) (Some ''main.js'') None) = Inr ''main'' \<and>
   name titleFs (newProject ''site'' None None (Some (Some ''Orbit''))) = Inr ''Orbit''"
proof -
  let ?p = "newProject ''site'' (Some (Some ''index.html'')) None None"
  let ?q = "newProject ''site'' (Some None) (Some ''main.js'') None"
  let ?r = "newProject ''site'' None None (Some (Some ''Orbit''))"
  have l: "lastTitle markupTwoTitles ''B''"
    using matchTitle_two by (simp add: matchTitle_lastTitle)
  have hp: "\<not> truthy (title ?p) \<and> truthy (indexPath ?p) \<and>
      titleFs (path_join (dirPath ?p) (the (indexPath ?p))) = Some (File markupTwoTitles) \<and>
      lastTitle markupTwoTitles ''B''"
    using l by (simp add: newProject_def truthy_def titleFs_def path_join_def)
  have a: "name titleFs ?p = Inr (trim ''B'')"
    using name_resolution[of ?p titleFs markupTwoTitles "''B''"] hp by blast
  have hq: "\<not> truthy (title ?q) \<and>
      (\<not> truthy (indexPath ?q) \<or> titleFs (path_join (dirPath ?q) (the (indexPath ?q))) = None)"
    by (simp add: newProject_def truthy_def)
  have b: "name titleFs ?q = Inr (removeExtension (rootFile ?q))"
    using name_resolution[of ?q titleFs] hq by blast
  have e: "removeExtension (''main'' @ ''.js'') = ''main''"
    using name_resolution[of ?q titleFs] by blast
  have c: "name titleFs ?r = Inr (the (title ?r))"
    using name_resolution[of ?r titleFs] by (simp add: newProject_def truthy_def)
  have t: "trim ''B'' = ''B''" by (simp add: trim_def isSpace_def)
  have rf: "rootFile ?q = ''main'' @ ''.js''" by (simp add: rootFile_def newProject_def truthy_def)
  from a t have "name titleFs ?p = Inr ''B''" by simp
  moreover from b rf e have "name titleFs ?q = Inr ''main''" by simp
  moreover from c have "name titleFs ?r = Inr ''Orbit''" by (simp add: newProject_def)
  ultimately show ?thesis by (intro conjI)
qed

text \<open>
  C7 as the specification words it fails: the first title element of the text holds
  \<open>A\<close>, and the name of the project is \<open>B\<close>.
\<close>

theorem name_takes_last_title:
  "spec_firstTitle markupTwoTitles = Some ''A'' \<and>
   name titleFs (newProject ''site'' (Some (Some ''index.html'')) None None) = Inr ''B''"
  by (simp add: spec_firstTitle_def markupTwoTitles_def startsWith_def name_def newProject_def
      truthy_def titleFs_def path_join_def existsSync_def readFileSync_def matchTitle_def
      tryTitleAt_def trim_def isSpace_def)

end
